theory Spec2Isabelle
  imports Complex_Main
begin

section \<open>The dense matrix library \<open>linalg.c\<close>\<close>

text \<open>
  The library keeps every matrix in a heap-allocated \<open>struct Matrix\<close> and hands out
  pointers to it. The embedding below keeps that shape: a store of structs indexed by
  address, an \<open>errno\<close> cell next to it, and one HOL function per C function, taking the
  store and returning either a fault or the C result together with the new store.

  Conventions of the embedding:
  \<^item> the element type of a matrix is a parameter \<open>'a\<close>. Allocation, release, element
    access and multiplication are written for every element type that has the
    operations they use (\<open>0\<close> for \<open>calloc\<close> and for the value returned on failure, \<open>+\<close> and
    \<open>*\<close> for multiplication) and assume no law of them, so that what is proved of them
    holds of the \<open>double\<close> of any C implementation. Addition and the norms are written for
    \<open>double = real\<close>, which leaves rounding, infinities and NaN out: the theorems of the
    claims about them concern faults and \<open>errno\<close>, and the one value a witness reads off
    them, an L1 norm of 10, is exact in \<open>double\<close> arithmetic as well;
  \<^item> a \<open>size_t\<close> is a natural number; the code only compares sizes, apart from the
    byte counts it passes to \<open>malloc\<close> and \<open>calloc\<close>, which are not represented;
  \<^item> an \<open>int\<close> loop counter is a natural number that must stay at or below \<open>INT_MAX\<close>:
    incrementing it beyond is a signed overflow, which C leaves undefined and which
    is a fault here;
  \<^item> \<open>malloc\<close> and \<open>calloc\<close> always succeed and return an address never used before
    (the code does not test their results);
  \<^item> dereferencing \<open>NULL\<close> or a freed pointer, and indexing outside an allocation, are
    faults.
\<close>

subsection \<open>Values, faults and the store\<close>

type_synonym double = real
type_synonym size_t = nat
type_synonym addr = nat

datatype fault = NullDereference | InvalidPointer | OutOfBounds | SignedOverflow

definition INT_MAX :: nat where
  "INT_MAX = 2147483647"

definition EINVAL :: int where
  "EINVAL = 22"

text \<open>
  Modelled from the spec: \<open>struct Matrix\<close> is declared in \<open>linalg.h\<close>, which is not among
  the sources. It has the row count, the column count and the row-pointer array
  \<open>double** vals\<close>. The array is held by value: \<open>None\<close> is \<open>vals == NULL\<close>, and
  \<open>Some rows\<close> is an array of row pointers, row \<open>i\<close> being the block \<open>vals[i]\<close> points to.
  A row pointer that has not been assigned yet, or whose block has been freed, is the
  row \<open>[]\<close>: every access through it is out of bounds.
\<close>

record 'a Matrix =
  nrows :: size_t
  ncols :: size_t
  vals :: "'a list list option"

text \<open>
  A \<open>Matrix*\<close> is \<open>None\<close> for \<open>NULL\<close> or \<open>Some a\<close> for the address \<open>a\<close>. The store lists
  the structs by address; a freed struct leaves \<open>None\<close> behind.
\<close>

record 'a state =
  heap :: "'a Matrix option list"
  errno :: int

definition lookup :: "'a state \<Rightarrow> addr \<Rightarrow> 'a Matrix option" where
  "lookup s a = (if a < length (heap s) then heap s ! a else None)"

definition store :: "'a state \<Rightarrow> addr \<Rightarrow> 'a Matrix \<Rightarrow> 'a state" where
  "store s a m = s\<lparr>heap := (heap s)[a := Some m]\<rparr>"

definition deref :: "'a state \<Rightarrow> addr option \<Rightarrow> fault + 'a Matrix" where
  "deref s p =
     (case p of None \<Rightarrow> Inl NullDereference
      | Some a \<Rightarrow> (case lookup s a of None \<Rightarrow> Inl InvalidPointer | Some m \<Rightarrow> Inr m))"

text \<open>\<open>malloc(sizeof(Matrix))\<close>: a new struct at the end of the store. Its fields are
  indeterminate in C; \<open>init_Matrix\<close> assigns all three before anything reads them.\<close>

definition alloc :: "'a state \<Rightarrow> 'a Matrix \<Rightarrow> 'a state" where
  "alloc s m = s\<lparr>heap := heap s @ [Some m]\<rparr>"

definition malloc_Matrix :: "'a state \<Rightarrow> addr \<times> 'a state" where
  "malloc_Matrix s = (length (heap s), alloc s \<lparr>nrows = 0, ncols = 0, vals = None\<rparr>)"

definition free_Matrix :: "'a state \<Rightarrow> addr \<Rightarrow> 'a state" where
  "free_Matrix s a = s\<lparr>heap := (heap s)[a := None]\<rparr>"

text \<open>Sequencing: a fault ends the computation, as a crash ends the C program.\<close>

definition andthen :: "fault + 'b \<Rightarrow> ('b \<Rightarrow> fault + 'c) \<Rightarrow> fault + 'c" where
  "andthen x f = (case x of Inl e \<Rightarrow> Inl e | Inr v \<Rightarrow> f v)"

text \<open>Reading a field through a pointer, \<open>M->f\<close>, and assigning the struct behind it.\<close>

definition field :: "('a Matrix \<Rightarrow> 'b) \<Rightarrow> addr option \<Rightarrow> 'a state \<Rightarrow> fault + 'b" where
  "field f p s = andthen (deref s p) (\<lambda>m. Inr (f m))"

definition modify ::
  "addr option \<Rightarrow> ('a Matrix \<Rightarrow> fault + 'a Matrix) \<Rightarrow> 'a state \<Rightarrow> fault + 'a state" where
  "modify p f s =
     andthen (deref s p) (\<lambda>m. andthen (f m) (\<lambda>m'. Inr (store s (the p) m')))"

text \<open>The element \<open>vals[i][j]\<close>, read and written, and the row pointer \<open>vals[i]\<close>, written.\<close>

definition load :: "'a Matrix \<Rightarrow> nat \<Rightarrow> nat \<Rightarrow> fault + 'a" where
  "load m i j =
     (case vals m of None \<Rightarrow> Inl NullDereference
      | Some rows \<Rightarrow>
          if i < length rows \<and> j < length (rows ! i) then Inr (rows ! i ! j)
          else Inl OutOfBounds)"

definition assign :: "nat \<Rightarrow> nat \<Rightarrow> 'a \<Rightarrow> 'a Matrix \<Rightarrow> fault + 'a Matrix" where
  "assign i j v m =
     (case vals m of None \<Rightarrow> Inl NullDereference
      | Some rows \<Rightarrow>
          if i < length rows \<and> j < length (rows ! i)
          then Inr (m\<lparr>vals := Some (rows[i := (rows ! i)[j := v]])\<rparr>)
          else Inl OutOfBounds)"

definition assign_row :: "nat \<Rightarrow> 'a list \<Rightarrow> 'a Matrix \<Rightarrow> fault + 'a Matrix" where
  "assign_row i r m =
     (case vals m of None \<Rightarrow> Inl NullDereference
      | Some rows \<Rightarrow>
          if i < length rows then Inr (m\<lparr>vals := Some (rows[i := r])\<rparr>)
          else Inl OutOfBounds)"

subsection \<open>Counting loops\<close>

text \<open>
  Every loop of the library is \<open>for (int i = 0; i < N; i++) BODY\<close>, with \<open>N\<close> a \<open>size_t\<close>
  read anew before each round. \<open>for_int i N BODY s\<close> runs it from counter \<open>i\<close> in loop
  state \<open>s\<close>. The comparison converts the counter to \<open>size_t\<close>, which leaves a
  non-negative \<open>int\<close> as it is. \<open>i++\<close> at \<open>INT_MAX\<close> overflows.
\<close>

function for_int ::
  "nat \<Rightarrow> ('s \<Rightarrow> fault + size_t) \<Rightarrow> (nat \<Rightarrow> 's \<Rightarrow> fault + 's) \<Rightarrow> 's \<Rightarrow> fault + 's" where
  "for_int i bound body s =
     (case bound s of Inl e \<Rightarrow> Inl e
      | Inr n \<Rightarrow>
          if i < n then
            (case body i s of Inl e \<Rightarrow> Inl e
             | Inr s' \<Rightarrow>
                 if INT_MAX \<le> i then Inl SignedOverflow
                 else for_int (Suc i) bound body s')
          else Inr s)"
  by pat_completeness auto
termination
  by (relation "measure (\<lambda>(i, bound, body, s). INT_MAX - i)") auto

declare for_int.simps [simp del]

subsection \<open>Lifecycle\<close>

definition init_Matrix ::
  "addr option \<Rightarrow> size_t \<Rightarrow> size_t \<Rightarrow> 'a::zero state \<Rightarrow> fault + 'a state" where
  "init_Matrix M nrows' ncols' s =
     (if M = None then Inr s
      else
        andthen (modify M (\<lambda>m. Inr (m\<lparr>nrows := nrows', ncols := ncols'\<rparr>)) s) (\<lambda>s1.
        if nrows' \<le> 0 \<or> ncols' \<le> 0
        then modify M (\<lambda>m. Inr (m\<lparr>vals := None\<rparr>)) s1
        else
          andthen (modify M (\<lambda>m. Inr (m\<lparr>vals := Some (replicate nrows' [])\<rparr>)) s1) (\<lambda>s2.
          for_int 0 (\<lambda>_. Inr nrows')
            (\<lambda>i. modify M (assign_row i (replicate ncols' 0))) s2)))"

definition new_Matrix ::
  "size_t \<Rightarrow> size_t \<Rightarrow> 'a::zero state \<Rightarrow> fault + (addr option \<times> 'a state)" where
  "new_Matrix nrows' ncols' s =
     (case malloc_Matrix s of (a, s1) \<Rightarrow>
        andthen (init_Matrix (Some a) nrows' ncols' s1) (\<lambda>s2. Inr (Some a, s2)))"

text \<open>\<open>free(M->vals[i])\<close> leaves row pointer \<open>i\<close> dangling; \<open>free(M->vals)\<close> and
  \<open>M->vals = NULL\<close> together are the assignment of \<open>None\<close>. \<open>free(M)\<close> in \<open>delete_Matrix\<close>
  removes the struct from the store.\<close>

definition deinit_Matrix :: "addr option \<Rightarrow> 'a state \<Rightarrow> fault + 'a state" where
  "deinit_Matrix M s =
     (if M = None then Inr s
      else
        andthen (deref s M) (\<lambda>m.
        if vals m = None then Inr s
        else
          andthen (for_int 0 (field nrows M) (\<lambda>i. modify M (assign_row i [])) s) (\<lambda>s1.
          modify M (\<lambda>m. Inr (m\<lparr>vals := None, nrows := 0, ncols := 0\<rparr>)) s1)))"

definition delete_Matrix :: "addr option \<Rightarrow> 'a state \<Rightarrow> fault + 'a state" where
  "delete_Matrix M s =
     (if M = None then Inr s
      else andthen (deinit_Matrix M s) (\<lambda>s1. Inr (free_Matrix s1 (the M))))"

subsection \<open>Element access\<close>

text \<open>The tests \<open>i < 0\<close> and \<open>j < 0\<close> of the source are on \<open>size_t\<close> values and never hold.\<close>

definition Matrix_get ::
  "addr option \<Rightarrow> size_t \<Rightarrow> size_t \<Rightarrow> 'a::zero state \<Rightarrow> fault + ('a \<times> 'a state)" where
  "Matrix_get M i j s =
     (if M = None then Inr (0, s\<lparr>errno := EINVAL\<rparr>)
      else
        andthen (deref s M) (\<lambda>m.
        if vals m = None \<or> i < 0 \<or> j < 0 \<or> i \<ge> nrows m \<or> j \<ge> ncols m
        then Inr (0, s\<lparr>errno := EINVAL\<rparr>)
        else andthen (load m i j) (\<lambda>v. Inr (v, s))))"

definition Matrix_put ::
  "addr option \<Rightarrow> size_t \<Rightarrow> size_t \<Rightarrow> 'a \<Rightarrow> 'a state \<Rightarrow> fault + (int \<times> 'a state)" where
  "Matrix_put M i j val s =
     (if M = None then Inr (1, s)
      else
        andthen (deref s M) (\<lambda>m.
        if vals m = None \<or> i < 0 \<or> j < 0 \<or> i \<ge> nrows m \<or> j \<ge> ncols m
        then Inr (1, s)
        else andthen (modify M (assign i j val) s) (\<lambda>s1. Inr (0, s1))))"

subsection \<open>Arithmetic\<close>

text \<open>One round of the inner loops: \<open>ret->vals[i][j] = A->vals[i][j] + B->vals[i][j]\<close>
  and \<open>ret->vals[i][j] += A->vals[i][k] * B->vals[k][j]\<close>, each operand read from the
  store as it is at that moment.\<close>

definition add_entry ::
  "addr option \<Rightarrow> addr option \<Rightarrow> addr option \<Rightarrow> nat \<Rightarrow> nat \<Rightarrow> double state \<Rightarrow>
     fault + double state" where
  "add_entry ret A B i j s =
     andthen (deref s A) (\<lambda>a. andthen (load a i j) (\<lambda>x.
     andthen (deref s B) (\<lambda>b. andthen (load b i j) (\<lambda>y.
       modify ret (assign i j (x + y)) s))))"

definition Matrix_add ::
  "addr option \<Rightarrow> addr option \<Rightarrow> double state \<Rightarrow> fault + (addr option \<times> double state)" where
  "Matrix_add A B s =
     (if A = None \<or> B = None then Inr (None, s)
      else
        andthen (deref s A) (\<lambda>a. andthen (deref s B) (\<lambda>b.
        if vals a = None \<or> vals b = None then Inr (None, s)
        else if \<not> (nrows a = nrows b \<and> ncols b = ncols a) then Inr (None, s)
        else
          andthen (new_Matrix (nrows a) (ncols b) s) (\<lambda>(ret, s1).
          andthen
            (for_int 0 (field nrows ret)
               (\<lambda>i. for_int 0 (field ncols ret) (\<lambda>j. add_entry ret A B i j)) s1)
            (\<lambda>s2. Inr (ret, s2))))))"

definition mult_entry ::
  "addr option \<Rightarrow> addr option \<Rightarrow> addr option \<Rightarrow> nat \<Rightarrow> nat \<Rightarrow> nat \<Rightarrow>
     'a::{plus,times} state \<Rightarrow> fault + 'a state" where
  "mult_entry ret A B i j k s =
     andthen (deref s ret) (\<lambda>r. andthen (load r i j) (\<lambda>acc.
     andthen (deref s A) (\<lambda>a. andthen (load a i k) (\<lambda>x.
     andthen (deref s B) (\<lambda>b. andthen (load b k j) (\<lambda>y.
       modify ret (assign i j (acc + x * y)) s))))))"

definition Matrix_mult ::
  "addr option \<Rightarrow> addr option \<Rightarrow> 'a::{zero,plus,times} state \<Rightarrow>
     fault + (addr option \<times> 'a state)" where
  "Matrix_mult A B s =
     (if A = None \<or> B = None then Inr (None, s)
      else
        andthen (deref s A) (\<lambda>a. andthen (deref s B) (\<lambda>b.
        if vals a = None \<or> vals b = None then Inr (None, s)
        else if \<not> (nrows a = ncols b \<and> ncols a = nrows b) then Inr (None, s)
        else
          andthen (new_Matrix (nrows a) (ncols b) s) (\<lambda>(ret, s1).
          andthen
            (for_int 0 (field nrows ret)
               (\<lambda>i. for_int 0 (field ncols ret)
                  (\<lambda>j. for_int 0 (field ncols A) (\<lambda>k. mult_entry ret A B i j k))) s1)
            (\<lambda>s2. Inr (ret, s2))))))"

text \<open>The norms only read the store; their loops run on the accumulator. \<open>pow(x, 2)\<close>
  is the square and \<open>sqrt\<close> the real square root.\<close>

definition l1_entry ::
  "addr option \<Rightarrow> double state \<Rightarrow> nat \<Rightarrow> nat \<Rightarrow> double \<Rightarrow> fault + double" where
  "l1_entry A s i j result =
     andthen (deref s A) (\<lambda>a. andthen (load a i j) (\<lambda>toAdd.
       Inr (result + (if toAdd < 0 then toAdd * (- 1) else toAdd))))"

definition Matrix_l1 :: "addr option \<Rightarrow> double state \<Rightarrow> fault + (double \<times> double state)" where
  "Matrix_l1 A s =
     (if A = None then Inr (0, s\<lparr>errno := EINVAL\<rparr>)
      else
        andthen (deref s A) (\<lambda>a.
        if vals a = None \<or> nrows a \<le> 0 \<or> ncols a \<le> 0
        then Inr (0, s\<lparr>errno := EINVAL\<rparr>)
        else
          andthen
            (for_int 0 (\<lambda>_. field nrows A s)
               (\<lambda>i. for_int 0 (\<lambda>_. field ncols A s) (l1_entry A s i)) 0)
            (\<lambda>result. Inr (result, s))))"

definition l2_entry ::
  "addr option \<Rightarrow> double state \<Rightarrow> nat \<Rightarrow> nat \<Rightarrow> double \<Rightarrow> fault + double" where
  "l2_entry A s i j ret =
     andthen (deref s A) (\<lambda>a. andthen (load a i j) (\<lambda>x. Inr (ret + x ^ 2)))"

definition Matrix_l2 :: "addr option \<Rightarrow> double state \<Rightarrow> fault + (double \<times> double state)" where
  "Matrix_l2 A s =
     (if A = None then Inr (0, s)
      else
        andthen
          (for_int 0 (\<lambda>_. field nrows A s)
             (\<lambda>i. for_int 0 (\<lambda>_. field ncols A s) (l2_entry A s i)) 0)
          (\<lambda>ret. Inr (sqrt ret, s)))"

subsection \<open>A fragment of binary64 arithmetic\<close>

text \<open>
  To run the multiplication on particular doubles, the part of IEEE 754 binary64
  arithmetic that needs no rounding table: the infinities and NaN, and the finite doubles
  \<open>Finite x\<close> of value \<open>x\<close>, with \<open>-0.0\<close> and \<open>0.0\<close> taken as the one value \<open>Finite 0\<close> (they
  compare equal in C). A sum or product is given where the standard fixes it by one of
  these rules: NaN absorbs; \<open>inf - inf\<close> and \<open>inf * 0\<close> are NaN; an infinity otherwise
  absorbs, with the sign of the product; a finite double times zero is zero; zero is
  neutral for \<open>+\<close> and one for \<open>*\<close>; integers of magnitude at most \<open>2^53\<close> are doubles, their
  product is exact when it is again such an integer, and their sum is exact up to
  \<open>2^53\<close> and even integers up to \<open>2^54\<close>, an odd sum in between being a tie that goes to the
  neighbour divisible by four (round to nearest, ties to even). Every other result is
  \<open>Unmodelled\<close>: some double that this fragment does not determine, which stays
  undetermined through every later operation except against NaN. Each rule also holds
  of the fused \<open>acc + x * y\<close> that a compiler may emit for the two operations, since the
  products it determines are exact.
\<close>

datatype ieee = Finite real | PosInf | NegInf | NaN | Unmodelled

definition small :: "real \<Rightarrow> bool" where
  "small x = (x = of_int \<lfloor>x\<rfloor> \<and> \<bar>x\<bar> \<le> 2 ^ 53)"

definition nearest_even :: "int \<Rightarrow> int" where
  "nearest_even n =
     (if \<bar>n\<bar> \<le> 2 ^ 53 \<or> even n then n else if 4 dvd n + 1 then n + 1 else n - 1)"

fun ieee_add :: "ieee \<Rightarrow> ieee \<Rightarrow> ieee" where
  "ieee_add NaN _ = NaN"
| "ieee_add _ NaN = NaN"
| "ieee_add Unmodelled _ = Unmodelled"
| "ieee_add _ Unmodelled = Unmodelled"
| "ieee_add PosInf NegInf = NaN"
| "ieee_add NegInf PosInf = NaN"
| "ieee_add PosInf _ = PosInf"
| "ieee_add _ PosInf = PosInf"
| "ieee_add NegInf _ = NegInf"
| "ieee_add _ NegInf = NegInf"
| "ieee_add (Finite x) (Finite y) =
     (if x = 0 then Finite y
      else if y = 0 then Finite x
      else if small x \<and> small y then Finite (of_int (nearest_even (\<lfloor>x\<rfloor> + \<lfloor>y\<rfloor>)))
      else Unmodelled)"

fun ieee_mul :: "ieee \<Rightarrow> ieee \<Rightarrow> ieee" where
  "ieee_mul NaN _ = NaN"
| "ieee_mul _ NaN = NaN"
| "ieee_mul Unmodelled _ = Unmodelled"
| "ieee_mul _ Unmodelled = Unmodelled"
| "ieee_mul PosInf PosInf = PosInf"
| "ieee_mul PosInf NegInf = NegInf"
| "ieee_mul NegInf PosInf = NegInf"
| "ieee_mul NegInf NegInf = PosInf"
| "ieee_mul PosInf (Finite y) = (if y = 0 then NaN else if 0 < y then PosInf else NegInf)"
| "ieee_mul NegInf (Finite y) = (if y = 0 then NaN else if 0 < y then NegInf else PosInf)"
| "ieee_mul (Finite x) PosInf = (if x = 0 then NaN else if 0 < x then PosInf else NegInf)"
| "ieee_mul (Finite x) NegInf = (if x = 0 then NaN else if 0 < x then NegInf else PosInf)"
| "ieee_mul (Finite x) (Finite y) =
     (if x = 0 \<or> y = 0 then Finite 0
      else if x = 1 then Finite y
      else if y = 1 then Finite x
      else if small x \<and> small y \<and> small (x * y) then Finite (x * y)
      else Unmodelled)"

instantiation ieee :: "{zero, plus, times}"
begin

definition zero_ieee :: ieee where
  "zero_ieee = Finite 0"

definition plus_ieee :: "ieee \<Rightarrow> ieee \<Rightarrow> ieee" where
  "plus_ieee = ieee_add"

definition times_ieee :: "ieee \<Rightarrow> ieee \<Rightarrow> ieee" where
  "times_ieee = ieee_mul"

instance ..

end

subsection \<open>Well-formed matrices\<close>

text \<open>
  Storage matches the recorded dimensions: \<open>nrows\<close> row pointers, each to a block of
  \<open>ncols\<close> values. A matrix without storage is well formed whatever its dimensions.
\<close>

definition shaped :: "'a Matrix \<Rightarrow> bool" where
  "shaped m =
     (case vals m of None \<Rightarrow> True
      | Some rows \<Rightarrow> length rows = nrows m \<and> list_all (\<lambda>r. length r = ncols m) rows)"

text \<open>
  \<open>init_Matrix\<close> is the only function that attaches storage to a matrix, and its row
  loop counts in an \<open>int\<close>: it completes for at most \<open>INT_MAX\<close> rows. A matrix as the
  library builds it is therefore well formed and, when it has storage, has at most
  \<open>INT_MAX\<close> rows. Nothing bounds the number of columns.
\<close>

definition built :: "'a Matrix \<Rightarrow> bool" where
  "built m = (shaped m \<and> (vals m = None \<or> nrows m \<le> INT_MAX))"

text \<open>The storage of the matrix whose entry \<open>(i, j)\<close> is \<open>f i j\<close>.\<close>

definition table :: "nat \<Rightarrow> nat \<Rightarrow> (nat \<Rightarrow> nat \<Rightarrow> 'a) \<Rightarrow> 'a list list" where
  "table r c f = map (\<lambda>i. map (f i) [0..<c]) [0..<r]"

text \<open>
  What \<open>n\<close> rounds of \<open>ret[i][j] += A[i][k] * B[k][j]\<close> make of the zero that \<open>calloc\<close>
  left: the products are added one by one, for \<open>k = 0, 1, ...\<close> in this order, each addition
  and each multiplication in the arithmetic of the element type.
\<close>

definition accumulated :: "'a::{zero,plus,times} list list \<Rightarrow> 'a list list \<Rightarrow> nat \<Rightarrow> nat \<Rightarrow> nat \<Rightarrow> 'a" where
  "accumulated ra rb i j n = foldl (\<lambda>acc k. acc + ra ! i ! k * rb ! k ! j) 0 [0..<n]"

subsection \<open>Example stores\<close>

definition empty_store :: "double state" where
  "empty_store = \<lparr>heap = [], errno = 0\<rparr>"

text \<open>Five matrices: \<open>[[1, 2], [3, 4]]\<close>, the identity, \<open>[[-1, 2], [3, -4]]\<close>, a
  \<open>0 \<times> 0\<close> matrix without storage and the row \<open>[[5, 6]]\<close>.\<close>

definition example_store :: "double state" where
  "example_store =
     \<lparr>heap =
        [Some \<lparr>nrows = 2, ncols = 2, vals = Some [[1, 2], [3, 4]]\<rparr>,
         Some \<lparr>nrows = 2, ncols = 2, vals = Some [[1, 0], [0, 1]]\<rparr>,
         Some \<lparr>nrows = 2, ncols = 2, vals = Some [[- 1, 2], [3, - 4]]\<rparr>,
         Some \<lparr>nrows = 0, ncols = 0, vals = None\<rparr>,
         Some \<lparr>nrows = 1, ncols = 2, vals = Some [[5, 6]]\<rparr>],
      errno = 0\<rparr>"

text \<open>Stores of doubles for the multiplication: \<open>[[1, 2], [3, 4]]\<close>, the identity and the
  row \<open>[[5, 6]]\<close>; then \<open>[[inf, 2], [3, 4]]\<close> and the identity; then the row
  \<open>[[2^53, 1, -2^53]]\<close> and a column of ones.\<close>

definition ieee_store :: "ieee state" where
  "ieee_store =
     \<lparr>heap =
        [Some \<lparr>nrows = 2, ncols = 2, vals = Some [[Finite 1, Finite 2], [Finite 3, Finite 4]]\<rparr>,
         Some \<lparr>nrows = 2, ncols = 2, vals = Some [[Finite 1, Finite 0], [Finite 0, Finite 1]]\<rparr>,
         Some \<lparr>nrows = 1, ncols = 2, vals = Some [[Finite 5, Finite 6]]\<rparr>],
      errno = 0\<rparr>"

definition inf_store :: "ieee state" where
  "inf_store =
     \<lparr>heap =
        [Some \<lparr>nrows = 2, ncols = 2, vals = Some [[PosInf, Finite 2], [Finite 3, Finite 4]]\<rparr>,
         Some \<lparr>nrows = 2, ncols = 2, vals = Some [[Finite 1, Finite 0], [Finite 0, Finite 1]]\<rparr>],
      errno = 0\<rparr>"

definition rounding_store :: "ieee state" where
  "rounding_store =
     \<lparr>heap =
        [Some \<lparr>nrows = 1, ncols = 3,
               vals = Some [[Finite 9007199254740992, Finite 1, Finite (- 9007199254740992)]]\<rparr>,
         Some \<lparr>nrows = 3, ncols = 1, vals = Some [[Finite 1], [Finite 1], [Finite 1]]\<rparr>],
      errno = 0\<rparr>"

text \<open>A struct that records two rows and two columns but has no storage.\<close>

definition hollow_store :: "double state" where
  "hollow_store = \<lparr>heap = [Some \<lparr>nrows = 2, ncols = 2, vals = None\<rparr>], errno = 0\<rparr>"

text \<open>\<open>INT_MAX + 2\<close> rows of no columns, as \<open>new_Matrix(2147483649, 0)\<close> leaves it in the
  empty store.\<close>

definition tall_store :: "double state" where
  "tall_store = alloc empty_store \<lparr>nrows = 2147483649, ncols = 0, vals = None\<rparr>"

text \<open>One row of \<open>INT_MAX + 2\<close> columns, as \<open>new_Matrix(1, 2147483649)\<close> leaves it in the
  empty store, and the same after \<open>Matrix_put(M, 0, 2147483648, 1.0)\<close>.\<close>

definition wide :: "double Matrix" where
  "wide = \<lparr>nrows = 1, ncols = 2147483649, vals = Some (table 1 2147483649 (\<lambda>_ _. 0))\<rparr>"

definition wide_store :: "double state" where
  "wide_store = alloc empty_store wide"

definition wide_put :: "double Matrix" where
  "wide_put = wide\<lparr>vals := Some ((table 1 2147483649 (\<lambda>_ _. 0))
       [0 := (table 1 2147483649 (\<lambda>_ _. 0) ! 0)[2147483648 := 1]])\<rparr>"

definition wide_put_store :: "double state" where
  "wide_put_store = store wide_store 0 wide_put"

section \<open>Properties of the embedding\<close>

subsection \<open>Sequencing and loops\<close>

lemma andthen_simps [simp]:
  "andthen (Inl e) f = Inl e"
  "andthen (Inr v) f = f v"
  by (simp_all add: andthen_def)

text \<open>
  A loop whose successive states are \<open>F i\<close>, \<open>F (i + 1)\<close>, ... reaches \<open>F n\<close> when the
  bound \<open>n\<close> fits an \<open>int\<close>, and overflows when it does not.
\<close>

lemma for_int_trace:
  assumes "i \<le> n" and "n \<le> INT_MAX"
    and "\<And>j. i \<le> j \<Longrightarrow> j \<le> n \<Longrightarrow> bound (F j) = Inr n"
    and "\<And>j. i \<le> j \<Longrightarrow> j < n \<Longrightarrow> body j (F j) = Inr (F (Suc j))"
  shows "for_int i bound body (F i) = Inr (F n)"
  using assms
proof (induction "n - i" arbitrary: i)
  case 0
  then have "i = n" by simp
  with 0 show ?case by (subst for_int.simps) simp
next
  case (Suc d)
  then have lt: "i < n" by simp
  have step: "for_int (Suc i) bound body (F (Suc i)) = Inr (F n)"
    using Suc lt by (intro Suc.hyps(1)) auto
  show ?case
    using lt Suc.prems step by (subst for_int.simps) simp
qed

lemma for_int_overflow:
  assumes "i \<le> INT_MAX" and "INT_MAX < n"
    and "\<And>j. i \<le> j \<Longrightarrow> j \<le> INT_MAX \<Longrightarrow> bound (F j) = Inr n"
    and "\<And>j. i \<le> j \<Longrightarrow> j \<le> INT_MAX \<Longrightarrow> body j (F j) = Inr (F (Suc j))"
  shows "for_int i bound body (F i) = Inl SignedOverflow"
  using assms
proof (induction "INT_MAX - i" arbitrary: i)
  case 0
  then have "i = INT_MAX" by simp
  with 0 show ?case by (subst for_int.simps) simp
next
  case (Suc d)
  then have lt: "i < INT_MAX" by simp
  have step: "for_int (Suc i) bound body (F (Suc i)) = Inl SignedOverflow"
    using Suc lt by (intro Suc.hyps(1)) auto
  show ?case
    using lt Suc.prems step by (subst for_int.simps) simp
qed

lemma for_int_fault:
  assumes "bound s = Inr n" "i < n" "body i s = Inl e"
  shows "for_int i bound body s = Inl e"
  using assms by (subst for_int.simps) simp

lemma for_int_done:
  assumes "bound s = Inr n" "n \<le> i"
  shows "for_int i bound body s = Inr s"
  using assms by (subst for_int.simps) simp

subsection \<open>The store and the storage of a matrix\<close>

lemma lookup_store:
  "lookup (store s a m) b = (if b = a \<and> a < length (heap s) then Some m else lookup s b)"
  by (simp add: lookup_def store_def)

lemma store_store [simp]: "store (store s a m) a m' = store s a m'"
  by (simp add: store_def)

lemma errno_store [simp]: "errno (store s a m) = errno s"
  by (simp add: store_def)

lemma length_heap_store [simp]: "length (heap (store s a m)) = length (heap s)"
  by (simp add: store_def)

lemma lookup_live: "lookup s a = Some m \<Longrightarrow> a < length (heap s)"
  by (simp add: lookup_def split: if_splits)

lemma lookup_store_same: "lookup s a = Some m0 \<Longrightarrow> lookup (store s a m) a = Some m"
  by (simp add: lookup_store lookup_live)

lemma lookup_store_other: "b \<noteq> a \<Longrightarrow> lookup (store s a m) b = lookup s b"
  by (simp add: lookup_store)

lemma store_lookup_id: "lookup s a = Some m \<Longrightarrow> store s a m = s"
  by (simp add: lookup_def store_def list_update_same_conv split: if_splits)

lemma deref_live: "lookup s a = Some m \<Longrightarrow> deref s (Some a) = Inr m"
  by (simp add: deref_def)

lemma field_live: "lookup s a = Some m \<Longrightarrow> field f (Some a) s = Inr (f m)"
  by (simp add: field_def deref_live)

lemma modify_live:
  "lookup s a = Some m \<Longrightarrow> f m = Inr m' \<Longrightarrow> modify (Some a) f s = Inr (store s a m')"
  by (simp add: modify_def deref_live)

lemma modify_fault:
  "lookup s a = Some m \<Longrightarrow> f m = Inl e \<Longrightarrow> modify (Some a) f s = Inl e"
  by (simp add: modify_def deref_live)

lemma table_length [simp]: "length (table r c f) = r"
  by (simp add: table_def)

lemma table_nth [simp]: "i < r \<Longrightarrow> table r c f ! i = map (f i) [0..<c]"
  by (simp add: table_def)

lemma table_cong: "(\<And>i j. i < r \<Longrightarrow> j < c \<Longrightarrow> f i j = g i j) \<Longrightarrow> table r c f = table r c g"
  by (simp add: table_def)

lemma table_update:
  "i < r \<Longrightarrow> j < c \<Longrightarrow>
   (table r c f)[i := (table r c f ! i)[j := v]] = table r c (f(i := (f i)(j := v)))"
  by (auto simp: list_eq_iff_nth_eq nth_list_update)

lemma load_table:
  "i < r \<Longrightarrow> j < c \<Longrightarrow> load \<lparr>nrows = nr, ncols = nc, vals = Some (table r c f)\<rparr> i j = Inr (f i j)"
  by (simp add: load_def)

lemma assign_table:
  "i < r \<Longrightarrow> j < c \<Longrightarrow>
   assign i j v \<lparr>nrows = nr, ncols = nc, vals = Some (table r c f)\<rparr> =
     Inr \<lparr>nrows = nr, ncols = nc, vals = Some (table r c (f(i := (f i)(j := v))))\<rparr>"
proof -
  assume ij: "i < r" "j < c"
  then have "j < length (table r c f ! i)" by simp
  with ij show ?thesis
    by (simp add: assign_def table_update del: table_nth)
qed

lemma shaped_table:
  assumes "shaped m" "vals m = Some rows"
  shows "rows = table (nrows m) (ncols m) (\<lambda>i j. rows ! i ! j)"
  using assms by (auto simp: shaped_def list_all_length list_eq_iff_nth_eq)

lemma shaped_table_iff:
  "shaped \<lparr>nrows = r, ncols = c, vals = Some (table r c f)\<rparr>"
  by (simp add: shaped_def list_all_length)

subsection \<open>\<open>init_Matrix\<close> and \<open>new_Matrix\<close>\<close>

lemma init_rows_step:
  "i < r \<Longrightarrow>
   (map (\<lambda>k. if k < i then replicate c (0::'a::zero) else []) [0..<r])[i := replicate c 0] =
   map (\<lambda>k. if k < Suc i then replicate c 0 else []) [0..<r]"
  by (auto simp: list_eq_iff_nth_eq nth_list_update)

lemma init_Matrix_storage:
  assumes live: "lookup s a = Some m0" and r: "0 < r" "r \<le> INT_MAX" and c: "0 < c"
  shows "init_Matrix (Some a) r c s =
           Inr (store s a \<lparr>nrows = r, ncols = c, vals = Some (table r c (\<lambda>_ _. 0))\<rparr>)"
proof -
  define F where "F i = store s a \<lparr>nrows = r, ncols = c,
      vals = Some (map (\<lambda>k. if k < i then replicate c (0::'a::zero) else []) [0..<r])\<rparr>" for i
  have F0: "F 0 = store s a \<lparr>nrows = r, ncols = c, vals = Some (replicate r [])\<rparr>"
    by (simp add: F_def map_replicate_const)
  have "map (\<lambda>k. if k < r then replicate c (0::'a::zero) else []) [0..<r] = table r c (\<lambda>_ _. 0)"
    by (auto simp: list_eq_iff_nth_eq)
  then have Fr: "F r = store s a \<lparr>nrows = r, ncols = c, vals = Some (table r c (\<lambda>_ _. 0))\<rparr>"
    by (simp add: F_def)
  have liveF: "lookup (F i) a = Some \<lparr>nrows = r, ncols = c,
      vals = Some (map (\<lambda>k. if k < i then replicate c (0::'a::zero) else []) [0..<r])\<rparr>" for i
    unfolding F_def using live by (rule lookup_store_same)
  have step: "modify (Some a) (assign_row i (replicate c 0)) (F i) = Inr (F (Suc i))" if "i < r" for i
    using that
    by (subst modify_live [OF liveF]) (simp_all add: assign_row_def init_rows_step F_def)
  have loop: "for_int 0 (\<lambda>_. Inr r) (\<lambda>i. modify (Some a) (assign_row i (replicate c 0))) (F 0) = Inr (F r)"
    using r by (intro for_int_trace) (simp_all add: step)
  have s1: "modify (Some a) (\<lambda>m. Inr (m\<lparr>nrows := r, ncols := c\<rparr>)) s =
      Inr (store s a (m0\<lparr>nrows := r, ncols := c\<rparr>))"
    using live by (simp add: modify_live)
  have s2: "modify (Some a) (\<lambda>m. Inr (m\<lparr>vals := Some (replicate r [])\<rparr>))
       (store s a (m0\<lparr>nrows := r, ncols := c\<rparr>)) = Inr (F 0)"
    by (subst modify_live [OF lookup_store_same [OF live]]) (simp_all add: F0)
  show ?thesis
    using r c loop by (simp add: init_Matrix_def s1 s2 Fr)
qed

lemma init_Matrix_empty:
  assumes live: "lookup s a = Some m0" and z: "r = 0 \<or> c = 0"
  shows "init_Matrix (Some a) r c s = Inr (store s a \<lparr>nrows = r, ncols = c, vals = None\<rparr>)"
proof -
  have s1: "modify (Some a) (\<lambda>m. Inr (m\<lparr>nrows := r, ncols := c\<rparr>)) s =
      Inr (store s a (m0\<lparr>nrows := r, ncols := c\<rparr>))"
    using live by (simp add: modify_live)
  have s2: "modify (Some a) (\<lambda>m. Inr (m\<lparr>vals := None\<rparr>))
       (store s a (m0\<lparr>nrows := r, ncols := c\<rparr>)) =
       Inr (store s a \<lparr>nrows = r, ncols = c, vals = None\<rparr>)"
    by (subst modify_live [OF lookup_store_same [OF live]]) simp_all
  show ?thesis
    using z by (auto simp: init_Matrix_def s1 s2)
qed

lemma init_Matrix_overflow:
  assumes live: "lookup s a = Some m0" and r: "INT_MAX < r" and c: "0 < c"
  shows "init_Matrix (Some a) r c s = Inl SignedOverflow"
proof -
  define F where "F i = store s a \<lparr>nrows = r, ncols = c,
      vals = Some (map (\<lambda>k. if k < i then replicate c (0::'a::zero) else []) [0..<r])\<rparr>" for i
  have F0: "F 0 = store s a \<lparr>nrows = r, ncols = c, vals = Some (replicate r [])\<rparr>"
    by (simp add: F_def map_replicate_const)
  have liveF: "lookup (F i) a = Some \<lparr>nrows = r, ncols = c,
      vals = Some (map (\<lambda>k. if k < i then replicate c (0::'a::zero) else []) [0..<r])\<rparr>" for i
    unfolding F_def using live by (rule lookup_store_same)
  have step: "modify (Some a) (assign_row i (replicate c 0)) (F i) = Inr (F (Suc i))" if "i < r" for i
    using that
    by (subst modify_live [OF liveF]) (simp_all add: assign_row_def init_rows_step F_def)
  have loop: "for_int 0 (\<lambda>_. Inr r) (\<lambda>i. modify (Some a) (assign_row i (replicate c 0))) (F 0) = Inl SignedOverflow"
    using r by (intro for_int_overflow [where n = r]) (simp_all add: step)
  have s1: "modify (Some a) (\<lambda>m. Inr (m\<lparr>nrows := r, ncols := c\<rparr>)) s =
      Inr (store s a (m0\<lparr>nrows := r, ncols := c\<rparr>))"
    using live by (simp add: modify_live)
  have s2: "modify (Some a) (\<lambda>m. Inr (m\<lparr>vals := Some (replicate r [])\<rparr>))
       (store s a (m0\<lparr>nrows := r, ncols := c\<rparr>)) = Inr (F 0)"
    by (subst modify_live [OF lookup_store_same [OF live]]) (simp_all add: F0)
  show ?thesis
    using r c loop by (simp add: init_Matrix_def s1 s2)
qed

lemma lookup_alloc:
  "lookup (alloc s m) b = (if b = length (heap s) then Some m else lookup s b)"
  by (simp add: lookup_def alloc_def nth_append)

lemma lookup_fresh [simp]: "lookup s (length (heap s)) = None"
  by (simp add: lookup_def)

lemma store_alloc [simp]: "store (alloc s m0) (length (heap s)) m = alloc s m"
  by (simp add: store_def alloc_def)

lemma errno_alloc [simp]: "errno (alloc s m) = errno s"
  by (simp add: alloc_def)

lemma lookup_alloc_old: "lookup s a = Some m \<Longrightarrow> lookup (alloc s m') a = Some m"
  by (auto simp: lookup_alloc)

lemma new_Matrix_storage:
  assumes "0 < r" "r \<le> INT_MAX" "0 < c"
  shows "new_Matrix r c s =
     Inr (Some (length (heap s)),
          alloc s \<lparr>nrows = r, ncols = c, vals = Some (table r c (\<lambda>_ _. 0))\<rparr>)"
  using assms
  by (simp add: new_Matrix_def malloc_Matrix_def init_Matrix_storage [where ?m0.0 = "\<lparr>nrows = 0, ncols = 0, vals = None\<rparr>"] lookup_alloc)

lemma new_Matrix_empty:
  assumes "r = 0 \<or> c = 0"
  shows "new_Matrix r c s =
     Inr (Some (length (heap s)), alloc s \<lparr>nrows = r, ncols = c, vals = None\<rparr>)"
  using assms
  by (simp add: new_Matrix_def malloc_Matrix_def init_Matrix_empty [where ?m0.0 = "\<lparr>nrows = 0, ncols = 0, vals = None\<rparr>"] lookup_alloc)

lemma new_Matrix_overflow:
  assumes "INT_MAX < r" "0 < c"
  shows "new_Matrix r c s = Inl SignedOverflow"
  using assms
  by (simp add: new_Matrix_def malloc_Matrix_def init_Matrix_overflow [where ?m0.0 = "\<lparr>nrows = 0, ncols = 0, vals = None\<rparr>"] lookup_alloc)

subsection \<open>\<open>Matrix_get\<close> and \<open>Matrix_put\<close>\<close>

lemma Matrix_get_null: "Matrix_get None i j s = Inr (0, s\<lparr>errno := EINVAL\<rparr>)"
  by (simp add: Matrix_get_def)

lemma Matrix_get_invalid:
  "lookup s a = Some m \<Longrightarrow> vals m = None \<or> nrows m \<le> i \<or> ncols m \<le> j \<Longrightarrow>
   Matrix_get (Some a) i j s = Inr (0, s\<lparr>errno := EINVAL\<rparr>)"
  by (auto simp: Matrix_get_def deref_live)

lemma load_shaped:
  "shaped m \<Longrightarrow> vals m = Some rows \<Longrightarrow> i < nrows m \<Longrightarrow> j < ncols m \<Longrightarrow>
   load m i j = Inr (rows ! i ! j)"
  by (simp add: load_def shaped_def list_all_length)

lemma assign_shaped:
  "shaped m \<Longrightarrow> vals m = Some rows \<Longrightarrow> i < nrows m \<Longrightarrow> j < ncols m \<Longrightarrow>
   assign i j v m = Inr (m\<lparr>vals := Some (rows[i := (rows ! i)[j := v]])\<rparr>)"
  by (simp add: assign_def shaped_def list_all_length)

lemma Matrix_get_valid:
  "lookup s a = Some m \<Longrightarrow> shaped m \<Longrightarrow> vals m = Some rows \<Longrightarrow> i < nrows m \<Longrightarrow> j < ncols m \<Longrightarrow>
   Matrix_get (Some a) i j s = Inr (rows ! i ! j, s)"
  by (simp add: Matrix_get_def deref_live load_shaped)

lemma Matrix_put_null: "Matrix_put None i j v s = Inr (1, s)"
  by (simp add: Matrix_put_def)

lemma Matrix_put_invalid:
  "lookup s a = Some m \<Longrightarrow> vals m = None \<or> nrows m \<le> i \<or> ncols m \<le> j \<Longrightarrow>
   Matrix_put (Some a) i j v s = Inr (1, s)"
  by (auto simp: Matrix_put_def deref_live)

lemma Matrix_put_valid:
  "lookup s a = Some m \<Longrightarrow> shaped m \<Longrightarrow> vals m = Some rows \<Longrightarrow> i < nrows m \<Longrightarrow> j < ncols m \<Longrightarrow>
   Matrix_put (Some a) i j v s =
     Inr (0, store s a (m\<lparr>vals := Some (rows[i := (rows ! i)[j := v]])\<rparr>))"
  by (simp add: Matrix_put_def deref_live modify_live assign_shaped)

lemma shaped_update:
  "shaped m \<Longrightarrow> vals m = Some rows \<Longrightarrow>
   shaped (m\<lparr>vals := Some (rows[i := (rows ! i)[j := v]])\<rparr>)"
  by (cases "i < length rows") (auto simp: shaped_def list_all_length nth_list_update)

subsection \<open>\<open>Matrix_add\<close>\<close>

lemma add_entry_table:
  assumes a: "lookup s a = Some mA" "shaped mA" "vals mA = Some ra" "nrows mA = nr" "ncols mA = nc"
      and b: "lookup s b = Some mB" "shaped mB" "vals mB = Some rb" "nrows mB = nr" "ncols mB = nc"
      and ij: "i < nr" "j < nc"
  shows "add_entry (Some (length (heap s))) (Some a) (Some b) i j
           (alloc s \<lparr>nrows = nr, ncols = nc, vals = Some (table nr nc f)\<rparr>) =
         Inr (alloc s \<lparr>nrows = nr, ncols = nc,
                vals = Some (table nr nc (f(i := (f i)(j := ra ! i ! j + rb ! i ! j))))\<rparr>)"
proof -
  let ?S = "alloc s \<lparr>nrows = nr, ncols = nc, vals = Some (table nr nc f)\<rparr>"
  have da: "deref ?S (Some a) = Inr mA" and db: "deref ?S (Some b) = Inr mB"
    using a(1) b(1) by (simp_all add: deref_live lookup_alloc_old)
  have la: "load mA i j = Inr (ra ! i ! j)" and lb: "load mB i j = Inr (rb ! i ! j)"
    using a b ij by (simp_all add: load_shaped)
  have "modify (Some (length (heap s))) (assign i j (ra ! i ! j + rb ! i ! j)) ?S =
      Inr (store ?S (length (heap s)) \<lparr>nrows = nr, ncols = nc,
                vals = Some (table nr nc (f(i := (f i)(j := ra ! i ! j + rb ! i ! j))))\<rparr>)"
    by (rule modify_live [where f = "assign i j (ra ! i ! j + rb ! i ! j)",
          OF _ assign_table [OF ij]]) (simp add: lookup_alloc)
  then show ?thesis
    by (simp add: add_entry_def da db la lb)
qed

lemma add_loops:
  assumes a: "lookup s a = Some mA" "shaped mA" "vals mA = Some ra" "nrows mA = nr" "ncols mA = nc"
      and b: "lookup s b = Some mB" "shaped mB" "vals mB = Some rb" "nrows mB = nr" "ncols mB = nc"
      and bounds: "nr \<le> INT_MAX" "nc \<le> INT_MAX"
  shows "for_int 0 (field nrows (Some (length (heap s))))
           (\<lambda>i. for_int 0 (field ncols (Some (length (heap s))))
                  (\<lambda>j. add_entry (Some (length (heap s))) (Some a) (Some b) i j))
           (alloc s \<lparr>nrows = nr, ncols = nc, vals = Some (table nr nc (\<lambda>_ _. 0))\<rparr>) =
         Inr (alloc s \<lparr>nrows = nr, ncols = nc,
                vals = Some (table nr nc (\<lambda>i j. ra ! i ! j + rb ! i ! j))\<rparr>)"
proof -
  let ?r = "length (heap s)"
  define S where "S f = alloc s \<lparr>nrows = nr, ncols = nc, vals = Some (table nr nc f)\<rparr>" for f
  define G where "G i j = S (\<lambda>i' j'. if i' < i \<or> (i' = i \<and> j' < j) then ra ! i' ! j' + rb ! i' ! j' else 0)" for i j
  have S_cong: "S f = S g" if "\<And>i j. i < nr \<Longrightarrow> j < nc \<Longrightarrow> f i j = g i j" for f g
    unfolding S_def using table_cong [of nr nc f g] that by simp
  have entry_S: "add_entry (Some ?r) (Some a) (Some b) i j (S f) =
      Inr (S (f(i := (f i)(j := ra ! i ! j + rb ! i ! j))))" if "i < nr" "j < nc" for i j f
    unfolding S_def by (rule add_entry_table [OF a b that])
  have entry: "add_entry (Some ?r) (Some a) (Some b) i j (G i j) = Inr (G i (Suc j))"
    if "i < nr" "j < nc" for i j
  proof -
    have "S ((\<lambda>i' j'. if i' < i \<or> (i' = i \<and> j' < j) then ra ! i' ! j' + rb ! i' ! j' else 0)
             (i := (\<lambda>j'. if i < i \<or> (i = i \<and> j' < j) then ra ! i ! j' + rb ! i ! j' else 0)
                (j := ra ! i ! j + rb ! i ! j))) = G i (Suc j)"
      unfolding G_def by (rule S_cong) auto
    then show ?thesis
      unfolding G_def by (subst entry_S [OF that]) simp
  qed
  have rows: "field nrows (Some ?r) (S f) = Inr nr" and cols: "field ncols (Some ?r) (S f) = Inr nc" for f
    by (simp_all add: S_def field_live lookup_alloc)
  have rowsG: "field nrows (Some ?r) (G i j) = Inr nr"
    and colsG: "field ncols (Some ?r) (G i j) = Inr nc" for i j
    by (simp_all add: G_def rows cols)
  have inner: "for_int 0 (field ncols (Some ?r)) (\<lambda>j. add_entry (Some ?r) (Some a) (Some b) i j) (G i 0)
       = Inr (G i nc)" if "i < nr" for i
    by (rule for_int_trace [where F = "G i"]) (use bounds that in \<open>simp_all add: entry colsG\<close>)
  have next_row: "G i nc = G (Suc i) 0" for i
    unfolding G_def by (rule S_cong) auto
  have outer: "for_int 0 (field nrows (Some ?r))
       (\<lambda>i. for_int 0 (field ncols (Some ?r)) (\<lambda>j. add_entry (Some ?r) (Some a) (Some b) i j))
       (G 0 0) = Inr (G nr 0)"
    by (rule for_int_trace [where F = "\<lambda>i. G i 0"])
      (use bounds in \<open>simp_all add: inner next_row rowsG\<close>)
  have "G 0 0 = S (\<lambda>_ _. 0)" "G nr 0 = S (\<lambda>i j. ra ! i ! j + rb ! i ! j)"
    unfolding G_def by (rule S_cong; simp)+
  with outer show ?thesis by (simp add: S_def)
qed

lemma loops_without_storage:
  assumes z: "nr = 0 \<or> nc = 0" and bound: "nr \<le> INT_MAX"
  shows "for_int 0 (field nrows (Some (length (heap s))))
           (\<lambda>i. for_int 0 (field ncols (Some (length (heap s)))) (body i))
           (alloc s \<lparr>nrows = nr, ncols = nc, vals = None\<rparr>) =
         Inr (alloc s \<lparr>nrows = nr, ncols = nc, vals = None\<rparr>)"
proof -
  let ?T = "alloc s \<lparr>nrows = nr, ncols = nc, vals = None\<rparr>"
  have rows: "field nrows (Some (length (heap s))) ?T = Inr nr"
    and cols: "field ncols (Some (length (heap s))) ?T = Inr nc"
    by (simp_all add: field_live lookup_alloc)
  have inner: "for_int 0 (field ncols (Some (length (heap s)))) (body i) ?T = Inr ?T" if "i < nr" for i
    using z that by (intro for_int_done [where n = nc]) (simp_all add: field_live lookup_alloc)
  show ?thesis
    by (rule for_int_trace [where F = "\<lambda>_. ?T"]) (use bound in \<open>simp_all add: rows\<close>, erule inner)
qed

lemma Matrix_add_storage:
  assumes a: "lookup s a = Some mA" "shaped mA" "vals mA = Some ra" "nrows mA = nr" "ncols mA = nc"
      and b: "lookup s b = Some mB" "shaped mB" "vals mB = Some rb" "nrows mB = nr" "ncols mB = nc"
      and bounds: "0 < nr" "nr \<le> INT_MAX" "0 < nc" "nc \<le> INT_MAX"
  shows "Matrix_add (Some a) (Some b) s =
         Inr (Some (length (heap s)),
              alloc s \<lparr>nrows = nr, ncols = nc,
                vals = Some (table nr nc (\<lambda>i j. ra ! i ! j + rb ! i ! j))\<rparr>)"
  using bounds a b
  by (simp add: Matrix_add_def deref_live new_Matrix_storage add_loops [OF a b bounds(2,4)])

lemma Matrix_add_without_storage:
  assumes a: "lookup s a = Some mA" "vals mA = Some ra" "nrows mA = nr" "ncols mA = nc"
      and b: "lookup s b = Some mB" "vals mB = Some rb" "nrows mB = nr" "ncols mB = nc"
      and bounds: "nr = 0 \<or> nc = 0" "nr \<le> INT_MAX"
  shows "Matrix_add (Some a) (Some b) s =
         Inr (Some (length (heap s)), alloc s \<lparr>nrows = nr, ncols = nc, vals = None\<rparr>)"
  using a b
  by (simp add: Matrix_add_def deref_live new_Matrix_empty [OF bounds(1)]
      loops_without_storage [OF bounds])

lemma Matrix_add_invalid:
  "A = None \<or> B = None \<Longrightarrow> Matrix_add A B s = Inr (None, s)"
  "lookup s a = Some mA \<Longrightarrow> lookup s b = Some mB \<Longrightarrow>
   vals mA = None \<or> vals mB = None \<or> nrows mA \<noteq> nrows mB \<or> ncols mA \<noteq> ncols mB \<Longrightarrow>
   Matrix_add (Some a) (Some b) s = Inr (None, s)"
  by (auto simp: Matrix_add_def deref_live)

subsection \<open>\<open>Matrix_mult\<close>\<close>

lemma mult_entry_table:
  assumes a: "lookup s a = Some mA" "shaped mA" "vals mA = Some ra" "nrows mA = nr" "ncols mA = n"
      and b: "lookup s b = Some mB" "shaped mB" "vals mB = Some rb" "nrows mB = n" "ncols mB = nc"
      and ijk: "i < nr" "j < nc" "k < n"
  shows "mult_entry (Some (length (heap s))) (Some a) (Some b) i j k
           (alloc s \<lparr>nrows = nr, ncols = nc, vals = Some (table nr nc f)\<rparr>) =
         Inr (alloc s \<lparr>nrows = nr, ncols = nc,
                vals = Some (table nr nc (f(i := (f i)(j := f i j + ra ! i ! k * rb ! k ! j))))\<rparr>)"
proof -
  let ?M = "\<lparr>nrows = nr, ncols = nc, vals = Some (table nr nc f)\<rparr>"
  let ?S = "alloc s ?M"
  have look: "lookup ?S (length (heap s)) = Some ?M"
    by (simp add: lookup_alloc)
  have da: "deref ?S (Some a) = Inr mA" and db: "deref ?S (Some b) = Inr mB"
    and dr: "deref ?S (Some (length (heap s))) = Inr ?M"
    using a(1) b(1) by (simp_all add: deref_live lookup_alloc_old look)
  have la: "load mA i k = Inr (ra ! i ! k)" and lb: "load mB k j = Inr (rb ! k ! j)"
    and lr: "load ?M i j = Inr (f i j)"
    using a b ijk by (simp_all add: load_shaped load_table)
  have "modify (Some (length (heap s))) (assign i j (f i j + ra ! i ! k * rb ! k ! j)) ?S =
      Inr (store ?S (length (heap s)) \<lparr>nrows = nr, ncols = nc,
                vals = Some (table nr nc (f(i := (f i)(j := f i j + ra ! i ! k * rb ! k ! j))))\<rparr>)"
    by (rule modify_live [where f = "assign i j (f i j + ra ! i ! k * rb ! k ! j)",
          OF look assign_table [OF ijk(1,2)]])
  then show ?thesis
    by (simp add: mult_entry_def da db dr la lb lr)
qed

lemma accumulated_0 [simp]: "accumulated ra rb i j 0 = 0"
  by (simp add: accumulated_def)

lemma accumulated_Suc:
  "accumulated ra rb i j (Suc k) = accumulated ra rb i j k + ra ! i ! k * rb ! k ! j"
  by (simp add: accumulated_def)

lemma mult_loops:
  assumes a: "lookup s a = Some mA" "shaped mA" "vals mA = Some ra" "nrows mA = nr" "ncols mA = n"
      and b: "lookup s b = Some mB" "shaped mB" "vals mB = Some rb" "nrows mB = n" "ncols mB = nc"
      and bounds: "nr \<le> INT_MAX" "nc \<le> INT_MAX" "n \<le> INT_MAX"
  shows "for_int 0 (field nrows (Some (length (heap s))))
           (\<lambda>i. for_int 0 (field ncols (Some (length (heap s))))
                  (\<lambda>j. for_int 0 (field ncols (Some a))
                         (\<lambda>k. mult_entry (Some (length (heap s))) (Some a) (Some b) i j k)))
           (alloc s \<lparr>nrows = nr, ncols = nc, vals = Some (table nr nc (\<lambda>_ _. 0))\<rparr>) =
         Inr (alloc s \<lparr>nrows = nr, ncols = nc,
                vals = Some (table nr nc (\<lambda>i j. accumulated ra rb i j n))\<rparr>)"
proof -
  let ?r = "length (heap s)"
  let ?P = "accumulated ra rb"
  define S where "S f = alloc s \<lparr>nrows = nr, ncols = nc, vals = Some (table nr nc f)\<rparr>" for f
  define H where "H i j k = S (\<lambda>i' j'. if i' < i \<or> (i' = i \<and> j' < j) then ?P i' j' n
                                  else if i' = i \<and> j' = j then ?P i j k else 0)" for i j k
  have S_cong: "S f = S g" if "\<And>i j. i < nr \<Longrightarrow> j < nc \<Longrightarrow> f i j = g i j" for f g
    unfolding S_def using table_cong [of nr nc f g] that by simp
  have entry_S: "mult_entry (Some ?r) (Some a) (Some b) i j k (S f) =
      Inr (S (f(i := (f i)(j := f i j + ra ! i ! k * rb ! k ! j))))"
    if "i < nr" "j < nc" "k < n" for i j k f
    unfolding S_def by (rule mult_entry_table [OF a b that])
  have entry: "mult_entry (Some ?r) (Some a) (Some b) i j k (H i j k) = Inr (H i j (Suc k))"
    if "i < nr" "j < nc" "k < n" for i j k
  proof -
    let ?f = "\<lambda>i' j'. if i' < i \<or> (i' = i \<and> j' < j) then ?P i' j' n
                      else if i' = i \<and> j' = j then ?P i j k else 0"
    have "S (?f(i := (?f i)(j := ?f i j + ra ! i ! k * rb ! k ! j))) = H i j (Suc k)"
      unfolding H_def by (rule S_cong) (auto simp: accumulated_Suc)
    then show ?thesis
      unfolding H_def by (subst entry_S [OF that]) simp
  qed
  have rowsH: "field nrows (Some ?r) (H i j k) = Inr nr"
    and colsH: "field ncols (Some ?r) (H i j k) = Inr nc" for i j k
    by (simp_all add: H_def S_def field_live lookup_alloc)
  have colsA: "field ncols (Some a) (H i j k) = Inr n" for i j k
    unfolding H_def S_def using field_live [OF lookup_alloc_old [OF a(1)], of ncols] a(5) by simp
  have innermost: "for_int 0 (field ncols (Some a))
        (\<lambda>k. mult_entry (Some ?r) (Some a) (Some b) i j k) (H i j 0) = Inr (H i j n)"
    if "i < nr" "j < nc" for i j
    by (rule for_int_trace [where F = "H i j"]) (use bounds that in \<open>simp_all add: entry colsA\<close>)
  have next_col: "H i j n = H i (Suc j) 0" for i j
    unfolding H_def by (rule S_cong) auto
  have inner: "for_int 0 (field ncols (Some ?r))
        (\<lambda>j. for_int 0 (field ncols (Some a))
           (\<lambda>k. mult_entry (Some ?r) (Some a) (Some b) i j k)) (H i 0 0) = Inr (H i nc 0)"
    if "i < nr" for i
    by (rule for_int_trace [where F = "\<lambda>j. H i j 0"])
      (use bounds that in \<open>simp_all add: innermost next_col colsH\<close>)
  have next_row: "H i nc 0 = H (Suc i) 0 0" for i
    unfolding H_def by (rule S_cong) auto
  have outer: "for_int 0 (field nrows (Some ?r))
       (\<lambda>i. for_int 0 (field ncols (Some ?r))
          (\<lambda>j. for_int 0 (field ncols (Some a))
             (\<lambda>k. mult_entry (Some ?r) (Some a) (Some b) i j k)))
       (H 0 0 0) = Inr (H nr 0 0)"
    by (rule for_int_trace [where F = "\<lambda>i. H i 0 0"])
      (use bounds in \<open>simp_all add: inner next_row rowsH\<close>)
  have "H 0 0 0 = S (\<lambda>_ _. 0)" "H nr 0 0 = S (\<lambda>i j. ?P i j n)"
    unfolding H_def by (rule S_cong; simp)+
  with outer show ?thesis by (simp add: S_def)
qed

lemma Matrix_mult_storage:
  assumes a: "lookup s a = Some mA" "shaped mA" "vals mA = Some ra" "nrows mA = nr" "ncols mA = n"
      and b: "lookup s b = Some mB" "shaped mB" "vals mB = Some rb" "nrows mB = n" "ncols mB = nr"
      and bounds: "0 < nr" "nr \<le> INT_MAX" "n \<le> INT_MAX"
  shows "Matrix_mult (Some a) (Some b) s =
         Inr (Some (length (heap s)),
              alloc s \<lparr>nrows = nr, ncols = nr,
                vals = Some (table nr nr (\<lambda>i j. accumulated ra rb i j n))\<rparr>)"
  using bounds a b
  by (simp add: Matrix_mult_def deref_live new_Matrix_storage
      mult_loops [OF a b bounds(2) bounds(2) bounds(3)])

lemma Matrix_mult_without_storage:
  assumes a: "lookup s a = Some mA" "vals mA = Some ra" "nrows mA = 0" "ncols mA = n"
      and b: "lookup s b = Some mB" "vals mB = Some rb" "nrows mB = n" "ncols mB = 0"
  shows "Matrix_mult (Some a) (Some b) s =
         Inr (Some (length (heap s)), alloc s \<lparr>nrows = 0, ncols = 0, vals = None\<rparr>)"
  using a b
  by (simp add: Matrix_mult_def deref_live new_Matrix_empty
      loops_without_storage [where nr = 0 and nc = 0, simplified])

lemma Matrix_mult_invalid:
  "A = None \<or> B = None \<Longrightarrow> Matrix_mult A B s = Inr (None, s)"
  "lookup s a = Some mA \<Longrightarrow> lookup s b = Some mB \<Longrightarrow>
   vals mA = None \<or> vals mB = None \<or> nrows mA \<noteq> ncols mB \<or> ncols mA \<noteq> nrows mB \<Longrightarrow>
   Matrix_mult (Some a) (Some b) s = Inr (None, s)"
  by (auto simp: Matrix_mult_def deref_live)

subsection \<open>\<open>Matrix_l1\<close> and \<open>Matrix_l2\<close>\<close>

lemma sum_loops:
  fixes e :: "nat \<Rightarrow> nat \<Rightarrow> real"
  assumes bounds: "nr \<le> INT_MAX" "nc \<le> INT_MAX"
    and body: "\<And>i j acc. i < nr \<Longrightarrow> j < nc \<Longrightarrow> body i j acc = Inr (acc + e i j)"
  shows "for_int 0 (\<lambda>_. Inr nr) (\<lambda>i. for_int 0 (\<lambda>_. Inr nc) (body i)) 0 =
         Inr (\<Sum>i<nr. \<Sum>j<nc. e i j)"
proof -
  define F where "F i = (\<Sum>i'<i. \<Sum>j<nc. e i' j)" for i
  define G where "G i j = F i + (\<Sum>j'<j. e i j')" for i j
  have inner: "for_int 0 (\<lambda>_. Inr nc) (body i) (G i 0) = Inr (G i nc)" if "i < nr" for i
    by (rule for_int_trace [where F = "G i"]) (use bounds that in \<open>simp_all add: body G_def\<close>)
  have next_row: "G i nc = F (Suc i)" and first: "G i 0 = F i" for i
    by (simp_all add: G_def F_def)
  have "for_int 0 (\<lambda>_. Inr nr) (\<lambda>i. for_int 0 (\<lambda>_. Inr nc) (body i)) (F 0) = Inr (F nr)"
    by (rule for_int_trace [where F = F])
      (use bounds in \<open>simp_all add: inner [unfolded first next_row]\<close>)
  then show ?thesis by (simp add: F_def)
qed

lemma sum_loops_overflow:
  fixes e :: "nat \<Rightarrow> real"
  assumes bounds: "0 < nr" "INT_MAX < nc"
    and body: "\<And>j acc. j < nc \<Longrightarrow> body 0 j acc = Inr (acc + e j)"
  shows "for_int 0 (\<lambda>_. Inr nr) (\<lambda>i. for_int 0 (\<lambda>_. Inr nc) (body i)) 0 =
         Inl SignedOverflow"
proof -
  define G where "G j = (\<Sum>j'<j. e j')" for j
  have "for_int 0 (\<lambda>_. Inr nc) (body 0) (G 0) = Inl SignedOverflow"
    by (rule for_int_overflow [where F = G and n = nc])
      (use bounds in \<open>simp_all add: body G_def\<close>)
  then have "for_int 0 (\<lambda>_. Inr nc) (body 0) 0 = Inl SignedOverflow"
    by (simp add: G_def)
  then show ?thesis
    by (intro for_int_fault [where n = nr and body = "\<lambda>i. for_int 0 (\<lambda>_. Inr nc) (body i)"])
      (use bounds in simp_all)
qed

lemma l1_entry_shaped:
  "lookup s a = Some m \<Longrightarrow> shaped m \<Longrightarrow> vals m = Some rows \<Longrightarrow> i < nrows m \<Longrightarrow> j < ncols m \<Longrightarrow>
   l1_entry (Some a) s i j acc = Inr (acc + \<bar>rows ! i ! j\<bar>)"
  by (simp add: l1_entry_def deref_live load_shaped abs_if)

lemma l2_entry_shaped:
  "lookup s a = Some m \<Longrightarrow> shaped m \<Longrightarrow> vals m = Some rows \<Longrightarrow> i < nrows m \<Longrightarrow> j < ncols m \<Longrightarrow>
   l2_entry (Some a) s i j acc = Inr (acc + (rows ! i ! j)\<^sup>2)"
  by (simp add: l2_entry_def deref_live load_shaped)

lemma Matrix_l1_storage:
  assumes "lookup s a = Some m" "shaped m" "vals m = Some rows"
    and "0 < nrows m" "nrows m \<le> INT_MAX" "0 < ncols m" "ncols m \<le> INT_MAX"
  shows "Matrix_l1 (Some a) s = Inr (\<Sum>i<nrows m. \<Sum>j<ncols m. \<bar>rows ! i ! j\<bar>, s)"
  using assms
  by (simp add: Matrix_l1_def deref_live field_live
      sum_loops [where e = "\<lambda>i j. \<bar>rows ! i ! j\<bar>"] l1_entry_shaped)

lemma Matrix_l1_invalid:
  "Matrix_l1 None s = Inr (0, s\<lparr>errno := EINVAL\<rparr>)"
  "lookup s a = Some m \<Longrightarrow> vals m = None \<or> nrows m = 0 \<or> ncols m = 0 \<Longrightarrow>
   Matrix_l1 (Some a) s = Inr (0, s\<lparr>errno := EINVAL\<rparr>)"
  by (auto simp: Matrix_l1_def deref_live)

lemma Matrix_l1_overflow:
  assumes "lookup s a = Some m" "shaped m" "vals m = Some rows"
    and "0 < nrows m" "INT_MAX < ncols m"
  shows "Matrix_l1 (Some a) s = Inl SignedOverflow"
  using assms
  by (simp add: Matrix_l1_def deref_live field_live
      sum_loops_overflow [where e = "\<lambda>j. \<bar>rows ! 0 ! j\<bar>"] l1_entry_shaped)

lemma Matrix_l2_storage:
  assumes "lookup s a = Some m" "shaped m" "vals m = Some rows"
    and "nrows m \<le> INT_MAX" "ncols m \<le> INT_MAX"
  shows "Matrix_l2 (Some a) s = Inr (sqrt (\<Sum>i<nrows m. \<Sum>j<ncols m. (rows ! i ! j)\<^sup>2), s)"
  using assms
  by (simp add: Matrix_l2_def field_live
      sum_loops [where e = "\<lambda>i j. (rows ! i ! j)\<^sup>2"] l2_entry_shaped)

lemma Matrix_l2_overflow:
  assumes "lookup s a = Some m" "shaped m" "vals m = Some rows"
    and "0 < nrows m" "INT_MAX < ncols m"
  shows "Matrix_l2 (Some a) s = Inl SignedOverflow"
  using assms
  by (simp add: Matrix_l2_def field_live
      sum_loops_overflow [where e = "\<lambda>j. (rows ! 0 ! j)\<^sup>2"] l2_entry_shaped)

lemma Matrix_l2_null: "Matrix_l2 None s = Inr (0, s)"
  by (simp add: Matrix_l2_def)

lemma Matrix_l2_no_entries:
  assumes "lookup s a = Some m" "nrows m = 0 \<or> (ncols m = 0 \<and> nrows m \<le> INT_MAX)"
  shows "Matrix_l2 (Some a) s = Inr (0, s)"
proof -
  have "for_int 0 (\<lambda>_. Inr (nrows m)) (\<lambda>i. for_int 0 (\<lambda>_. Inr (ncols m)) (l2_entry (Some a) s i)) 0
       = Inr (\<Sum>i<nrows m. \<Sum>j<ncols m. 0)"
    using assms(2)
  proof
    assume "nrows m = 0"
    then show ?thesis by (simp add: for_int_done [where n = 0])
  next
    assume "ncols m = 0 \<and> nrows m \<le> INT_MAX"
    then show ?thesis
      by (intro sum_loops) simp_all
  qed
  then show ?thesis
    using assms(1) by (simp add: Matrix_l2_def field_live)
qed

lemma Matrix_l2_null_storage:
  assumes "lookup s a = Some m" "vals m = None" "0 < nrows m" "0 < ncols m"
  shows "Matrix_l2 (Some a) s = Inl NullDereference"
proof -
  have e: "l2_entry (Some a) s 0 0 0 = Inl NullDereference"
    using assms by (simp add: l2_entry_def deref_live load_def)
  have "for_int 0 (\<lambda>_. Inr (ncols m)) (l2_entry (Some a) s 0) 0 = Inl NullDereference"
    using assms e by (intro for_int_fault [where n = "ncols m"]) simp_all
  then have "for_int 0 (\<lambda>_. Inr (nrows m))
      (\<lambda>i. for_int 0 (\<lambda>_. Inr (ncols m)) (l2_entry (Some a) s i)) 0 = Inl NullDereference"
    by (intro for_int_fault [where n = "nrows m"
          and body = "\<lambda>i. for_int 0 (\<lambda>_. Inr (ncols m)) (l2_entry (Some a) s i)"])
      (use assms in simp_all)
  then show ?thesis
    using assms(1) by (simp add: Matrix_l2_def field_live)
qed

lemma Matrix_l2_rows_overflow:
  assumes "lookup s a = Some m" "ncols m = 0" "INT_MAX < nrows m"
  shows "Matrix_l2 (Some a) s = Inl SignedOverflow"
proof -
  have "for_int 0 (\<lambda>_. Inr (nrows m))
      (\<lambda>i. for_int 0 (\<lambda>_. Inr (ncols m)) (l2_entry (Some a) s i)) 0 = Inl SignedOverflow"
    by (rule for_int_overflow [where F = "\<lambda>_. 0" and n = "nrows m"])
      (use assms in \<open>simp_all add: for_int_done [where n = 0]\<close>)
  then show ?thesis
    using assms(1) by (simp add: Matrix_l2_def field_live)
qed

subsection \<open>\<open>deinit_Matrix\<close> and \<open>delete_Matrix\<close>\<close>

lemma deinit_rows_step:
  assumes "i < n"
  shows "(map (\<lambda>k. if k < i then [] else g k) [0..<n])[i := []] =
         map (\<lambda>k. if k < Suc i then [] else g k) [0..<n]"
proof (rule nth_equalityI)
  show "length ((map (\<lambda>k. if k < i then [] else g k) [0..<n])[i := []]) =
        length (map (\<lambda>k. if k < Suc i then [] else g k) [0..<n])"
    by simp
next
  fix k
  assume "k < length ((map (\<lambda>k. if k < i then [] else g k) [0..<n])[i := []])"
  then have "k < n" by simp
  then show "(map (\<lambda>k. if k < i then [] else g k) [0..<n])[i := []] ! k =
             map (\<lambda>k. if k < Suc i then [] else g k) [0..<n] ! k"
    using assms by (simp add: nth_list_update less_Suc_eq)
qed

lemma deinit_Matrix_storage:
  assumes live: "lookup s a = Some m" and rows: "vals m = Some rows" "length rows = nrows m"
    and bound: "nrows m \<le> INT_MAX"
  shows "deinit_Matrix (Some a) s = Inr (store s a \<lparr>nrows = 0, ncols = 0, vals = None\<rparr>)"
proof -
  define F where "F i = store s a
      (m\<lparr>vals := Some (map (\<lambda>k. if k < i then [] else rows ! k) [0..<length rows])\<rparr>)" for i
  have "map (\<lambda>k. if k < 0 then [] else rows ! k) [0..<length rows] = rows"
    by (simp add: map_nth)
  moreover have "m\<lparr>vals := Some rows\<rparr> = m"
    using rows by simp
  ultimately have "F 0 = store s a m"
    by (simp add: F_def)
  then have F0: "F 0 = s"
    using live by (simp add: store_lookup_id)
  have liveF: "lookup (F i) a =
      Some (m\<lparr>vals := Some (map (\<lambda>k. if k < i then [] else rows ! k) [0..<length rows])\<rparr>)" for i
    unfolding F_def using live by (rule lookup_store_same)
  have boundF: "field nrows (Some a) (F i) = Inr (nrows m)" for i
    by (simp add: field_live [OF liveF])
  have step: "modify (Some a) (assign_row i []) (F i) = Inr (F (Suc i))" if "i < nrows m" for i
    using that rows(2)
    by (subst modify_live [OF liveF]) (simp_all add: assign_row_def deinit_rows_step F_def)
  have "for_int 0 (field nrows (Some a)) (\<lambda>i. modify (Some a) (assign_row i [])) (F 0) =
      Inr (F (nrows m))"
    by (rule for_int_trace [where F = F]) (use bound in \<open>simp_all add: boundF step\<close>)
  then have loop: "for_int 0 (field nrows (Some a)) (\<lambda>i. modify (Some a) (assign_row i [])) s =
      Inr (F (nrows m))"
    by (simp add: F0)
  have fin: "modify (Some a) (\<lambda>m. Inr (m\<lparr>vals := None, nrows := 0, ncols := 0\<rparr>)) (F (nrows m)) =
      Inr (store s a \<lparr>nrows = 0, ncols = 0, vals = None\<rparr>)"
    by (subst modify_live [OF liveF]) (simp_all add: F_def)
  show ?thesis
    using live rows by (simp add: deinit_Matrix_def deref_live loop fin)
qed

lemma deinit_Matrix_noop:
  "deinit_Matrix None s = Inr s"
  "lookup s a = Some m \<Longrightarrow> vals m = None \<Longrightarrow> deinit_Matrix (Some a) s = Inr s"
  by (simp_all add: deinit_Matrix_def deref_live)

lemma delete_Matrix_null: "delete_Matrix None s = Inr s"
  by (simp add: delete_Matrix_def)

subsection \<open>\<open>Matrix_add\<close> on rows longer than \<open>INT_MAX\<close>\<close>

lemma Matrix_add_overflow:
  assumes a: "lookup s a = Some mA" "shaped mA" "vals mA = Some ra" "nrows mA = nr" "ncols mA = nc"
      and b: "lookup s b = Some mB" "shaped mB" "vals mB = Some rb" "nrows mB = nr" "ncols mB = nc"
      and bounds: "0 < nr" "nr \<le> INT_MAX" "INT_MAX < nc"
  shows "Matrix_add (Some a) (Some b) s = Inl SignedOverflow"
proof -
  let ?r = "length (heap s)"
  define S where "S f = alloc s \<lparr>nrows = nr, ncols = nc, vals = Some (table nr nc f)\<rparr>" for f
  define G where "G j = S (\<lambda>i' j'. if i' = 0 \<and> j' < j then ra ! i' ! j' + rb ! i' ! j' else 0)" for j
  have S_cong: "S f = S g" if "\<And>i j. i < nr \<Longrightarrow> j < nc \<Longrightarrow> f i j = g i j" for f g
    unfolding S_def using table_cong [of nr nc f g] that by simp
  have entry_S: "add_entry (Some ?r) (Some a) (Some b) i j (S f) =
      Inr (S (f(i := (f i)(j := ra ! i ! j + rb ! i ! j))))" if "i < nr" "j < nc" for i j f
    unfolding S_def by (rule add_entry_table [OF a b that])
  have entry: "add_entry (Some ?r) (Some a) (Some b) 0 j (G j) = Inr (G (Suc j))" if "j < nc" for j
  proof -
    let ?f = "\<lambda>i' j'. if i' = 0 \<and> j' < j then ra ! i' ! j' + rb ! i' ! j' else 0"
    have "S (?f(0 := (?f 0)(j := ra ! 0 ! j + rb ! 0 ! j))) = G (Suc j)"
      unfolding G_def by (rule S_cong) auto
    then show ?thesis
      unfolding G_def by (subst entry_S [OF bounds(1) that]) simp
  qed
  have rowsG: "field nrows (Some ?r) (G j) = Inr nr"
    and colsG: "field ncols (Some ?r) (G j) = Inr nc" for j
    by (simp_all add: G_def S_def field_live lookup_alloc)
  have inner: "for_int 0 (field ncols (Some ?r)) (\<lambda>j. add_entry (Some ?r) (Some a) (Some b) 0 j) (G 0)
       = Inl SignedOverflow"
    by (rule for_int_overflow [where F = G and n = nc]) (use bounds in \<open>simp_all add: entry colsG\<close>)
  have outer: "for_int 0 (field nrows (Some ?r))
       (\<lambda>i. for_int 0 (field ncols (Some ?r)) (\<lambda>j. add_entry (Some ?r) (Some a) (Some b) i j))
       (G 0) = Inl SignedOverflow"
    by (rule for_int_fault [where n = nr and
          body = "\<lambda>i. for_int 0 (field ncols (Some ?r)) (\<lambda>j. add_entry (Some ?r) (Some a) (Some b) i j)"])
       (use bounds in \<open>simp_all add: rowsG inner\<close>)
  have "G 0 = S (\<lambda>_ _. 0)"
    unfolding G_def by (rule S_cong) simp
  with outer show ?thesis
    using bounds a b
    by (simp add: Matrix_add_def deref_live new_Matrix_storage S_def)
qed

subsection \<open>Matrices as the library builds them\<close>

text \<open>\<open>init_Matrix\<close> establishes \<open>built\<close> whenever it returns, and \<open>Matrix_put\<close> keeps it.\<close>

lemma built_shaped: "built m \<Longrightarrow> shaped m"
  by (simp add: built_def)

lemma built_rows: "built m \<Longrightarrow> vals m = Some rows \<Longrightarrow> nrows m \<le> INT_MAX"
  by (auto simp: built_def)

lemma shaped_rows: "shaped m \<Longrightarrow> vals m = Some rows \<Longrightarrow> length rows = nrows m"
  by (simp add: shaped_def)

lemma built_table: "r \<le> INT_MAX \<Longrightarrow> built \<lparr>nrows = r, ncols = c, vals = Some (table r c f)\<rparr>"
  by (simp add: built_def shaped_table_iff)

lemma built_empty: "built \<lparr>nrows = r, ncols = c, vals = None\<rparr>"
  by (simp add: built_def shaped_def)

lemma init_Matrix_built:
  assumes "lookup s a = Some m0" "init_Matrix (Some a) r c s = Inr s'"
  shows "\<exists>m. lookup s' a = Some m \<and> built m \<and> nrows m = r \<and> ncols m = c"
proof -
  consider "r = 0 \<or> c = 0" | "0 < r" "r \<le> INT_MAX" "0 < c" | "INT_MAX < r" "0 < c"
    by linarith
  then show ?thesis
  proof cases
    case 1
    with assms show ?thesis
      by (auto simp: init_Matrix_empty lookup_store_same built_empty)
  next
    case 2
    with assms show ?thesis
      by (auto simp: init_Matrix_storage lookup_store_same built_table)
  next
    case 3
    with assms show ?thesis
      by (simp add: init_Matrix_overflow)
  qed
qed

lemma Matrix_put_built:
  assumes "lookup s a = Some m" "built m" "Matrix_put (Some a) i j v s = Inr (rc, s')"
  shows "\<exists>m'. lookup s' a = Some m' \<and> built m' \<and> nrows m' = nrows m \<and> ncols m' = ncols m"
proof (cases "vals m = None \<or> nrows m \<le> i \<or> ncols m \<le> j")
  case True
  with assms show ?thesis by (auto simp: Matrix_put_invalid)
next
  case False
  then obtain rows where rows: "vals m = Some rows" and ij: "i < nrows m" "j < ncols m"
    by auto
  have sh: "shaped m" using assms(2) by (rule built_shaped)
  have "s' = store s a (m\<lparr>vals := Some (rows[i := (rows ! i)[j := v]])\<rparr>)"
    using assms(3) by (simp add: Matrix_put_valid [OF assms(1) sh rows ij])
  moreover have "built (m\<lparr>vals := Some (rows[i := (rows ! i)[j := v]])\<rparr>)"
    using assms(2) rows shaped_update [OF sh rows, of i j v] by (simp add: built_def)
  ultimately show ?thesis
    using assms(1) by (simp add: lookup_store_same)
qed

section \<open>Element access and lifecycle\<close>

subsection \<open>The example store\<close>

lemma example_lookup:
  "lookup example_store 0 = Some \<lparr>nrows = 2, ncols = 2, vals = Some [[1, 2], [3, 4]]\<rparr>"
  "lookup example_store 1 = Some \<lparr>nrows = 2, ncols = 2, vals = Some [[1, 0], [0, 1]]\<rparr>"
  "lookup example_store 2 = Some \<lparr>nrows = 2, ncols = 2, vals = Some [[- 1, 2], [3, - 4]]\<rparr>"
  "lookup example_store 3 = Some \<lparr>nrows = 0, ncols = 0, vals = None\<rparr>"
  "lookup example_store 4 = Some \<lparr>nrows = 1, ncols = 2, vals = Some [[5, 6]]\<rparr>"
  by (simp_all add: lookup_def example_store_def)

lemma example_built:
  "built \<lparr>nrows = 2, ncols = 2, vals = Some [[a, b], [c, d]]\<rparr>"
  "built \<lparr>nrows = 1, ncols = 2, vals = Some [[a, b]]\<rparr>"
  by (simp_all add: built_def shaped_def INT_MAX_def)

lemma sum_two: "(\<Sum>i<2::nat. f i) = f 0 + (f 1 :: real)"
  by (simp add: numeral_2_eq_2)

lemma less_two: "(\<forall>i<2::nat. P i) \<longleftrightarrow> P 0 \<and> P 1"
  by (auto simp: numeral_2_eq_2 less_Suc_eq)

lemma example_l1: "Matrix_l1 (Some 2) example_store = Inr (10, example_store)"
  using Matrix_l1_storage [OF example_lookup(3), of "[[- 1, 2], [3, - 4]]"]
  by (simp add: shaped_def INT_MAX_def sum_two)

lemma example_l2: "Matrix_l2 (Some 2) example_store = Inr (sqrt 30, example_store)"
  using Matrix_l2_storage [OF example_lookup(3), of "[[- 1, 2], [3, - 4]]"]
  by (simp add: shaped_def INT_MAX_def sum_two)

subsection \<open>Put then get\<close>

text \<open>
  Claim C4. For a matrix \<open>M\<close> with backing storage, an index pair \<open>(i, j)\<close> with
  \<open>i < M.nrows\<close> and \<open>j < M.ncols\<close> and a value \<open>v\<close>, \<open>Matrix_put(M, i, j, v)\<close> returns 0 and
  \<open>Matrix_get(M, i, j)\<close> afterwards returns \<open>v\<close> without touching the store. Every other
  entry of \<open>M\<close> reads as before the put; the dimensions of \<open>M\<close>, every other matrix and
  \<open>errno\<close> are unchanged.
\<close>

theorem put_get_roundtrip:
  assumes "lookup s a = Some m" and "vals m = Some rows" and "shaped m"
    and "i < nrows m" and "j < ncols m"
  shows "\<exists>s' m'. Matrix_put (Some a) i j v s = Inr (0, s') \<and>
           Matrix_get (Some a) i j s' = Inr (v, s') \<and>
           (\<forall>i' j'. i' < nrows m \<longrightarrow> j' < ncols m \<longrightarrow> (i', j') \<noteq> (i, j) \<longrightarrow>
              Matrix_get (Some a) i' j' s = Inr (rows ! i' ! j', s) \<and>
              Matrix_get (Some a) i' j' s' = Inr (rows ! i' ! j', s')) \<and>
           lookup s' a = Some m' \<and> nrows m' = nrows m \<and> ncols m' = ncols m \<and> shaped m' \<and>
           (\<forall>b. b \<noteq> a \<longrightarrow> lookup s' b = lookup s b) \<and> errno s' = errno s"
proof -
  let ?rows' = "rows[i := (rows ! i)[j := v]]"
  let ?m' = "m\<lparr>vals := Some ?rows'\<rparr>"
  let ?s' = "store s a ?m'"
  have put: "Matrix_put (Some a) i j v s = Inr (0, ?s')"
    using assms(1,3,2,4,5) by (rule Matrix_put_valid)
  have live': "lookup ?s' a = Some ?m'"
    using assms(1) by (rule lookup_store_same)
  have sh': "shaped ?m'"
    using assms(3,2) by (rule shaped_update)
  have len: "i < length rows" "j < length (rows ! i)"
    using assms by (simp_all add: shaped_def list_all_length)
  have get': "Matrix_get (Some a) i' j' ?s' = Inr (?rows' ! i' ! j', ?s')"
    if "i' < nrows m" "j' < ncols m" for i' j'
    using that by (intro Matrix_get_valid [OF live' sh']) simp_all
  have same: "?rows' ! i ! j = v"
    using len by simp
  have other: "?rows' ! i' ! j' = rows ! i' ! j'" if "(i', j') \<noteq> (i, j)" for i' j'
    using that len by (cases "i' = i") (auto simp: nth_list_update)
  have get: "Matrix_get (Some a) i' j' s = Inr (rows ! i' ! j', s)"
    if "i' < nrows m" "j' < ncols m" for i' j'
    using assms(1,3,2) that by (rule Matrix_get_valid)
  show ?thesis
    using put get' [OF assms(4,5)] same other get get' live' sh'
    by (intro exI [of _ ?s'] exI [of _ ?m']) (simp add: lookup_store_other)
qed

text \<open>In the example store: writing 5 at \<open>(1, 0)\<close> of \<open>[[1, 2], [3, 4]]\<close>.\<close>

theorem put_get_roundtrip_witness:
  "\<exists>s'. Matrix_put (Some 0) 1 0 5 example_store = Inr (0, s') \<and>
        Matrix_get (Some 0) 1 0 s' = Inr (5, s') \<and>
        Matrix_get (Some 0) 1 1 s' = Inr (4, s') \<and>
        Matrix_get (Some 0) 0 0 s' = Inr (1, s')"
proof -
  let ?m = "\<lparr>nrows = 2, ncols = 2, vals = Some [[1, 2], [3, 4 :: real]]\<rparr>"
  have "shaped ?m"
    by (simp add: shaped_def)
  from put_get_roundtrip [OF example_lookup(1) _ this, of "[[1, 2], [3, 4]]" 1 0 5]
  obtain s' where s': "Matrix_put (Some 0) 1 0 5 example_store = Inr (0, s')"
      "Matrix_get (Some 0) 1 0 s' = Inr (5, s')"
      "\<forall>i' j'. i' < 2 \<longrightarrow> j' < 2 \<longrightarrow> (i', j') \<noteq> (1, 0) \<longrightarrow>
          Matrix_get (Some 0) i' j' s' = Inr ([[1, 2], [3, 4]] ! i' ! j', s')"
    by auto
  from s'(3) have "Matrix_get (Some 0) 1 1 s' = Inr (4, s')"
      "Matrix_get (Some 0) 0 0 s' = Inr (1, s')"
    by (auto dest: spec [of _ 1] spec [of _ 0])
  with s'(1,2) show ?thesis by blast
qed

subsection \<open>Invalid access\<close>

text \<open>
  Claim C5. When \<open>M\<close> is null, has no backing storage, or \<open>i >= M.nrows\<close> or
  \<open>j >= M.ncols\<close>, \<open>Matrix_get(M, i, j)\<close> returns 0.0 and sets \<open>errno\<close> to \<open>EINVAL\<close>, changing
  nothing else, and \<open>Matrix_put(M, i, j, v)\<close> returns 1 and leaves the whole store as it
  was. Otherwise \<open>Matrix_put\<close> writes \<open>v\<close> at \<open>(i, j)\<close> and returns 0.
\<close>

theorem invalid_access:
  "Matrix_get None i j s = Inr (0, s\<lparr>errno := EINVAL\<rparr>) \<and>
   Matrix_put None i j v s = Inr (1, s) \<and>
   (lookup s a = Some m \<longrightarrow> vals m = None \<or> nrows m \<le> i \<or> ncols m \<le> j \<longrightarrow>
      Matrix_get (Some a) i j s = Inr (0, s\<lparr>errno := EINVAL\<rparr>) \<and>
      Matrix_put (Some a) i j v s = Inr (1, s)) \<and>
   (lookup s a = Some m \<longrightarrow> shaped m \<longrightarrow> vals m = Some rows \<longrightarrow> i < nrows m \<longrightarrow> j < ncols m \<longrightarrow>
      Matrix_put (Some a) i j v s =
        Inr (0, store s a (m\<lparr>vals := Some (rows[i := (rows ! i)[j := v]])\<rparr>)))"
  by (simp add: Matrix_get_null Matrix_put_null Matrix_get_invalid Matrix_put_invalid
      Matrix_put_valid)

text \<open>In the example store: a row index and a column index out of range, the matrix
  without storage, and a write in range.\<close>

theorem invalid_access_witness:
  "Matrix_get (Some 0) 2 0 example_store = Inr (0, example_store\<lparr>errno := EINVAL\<rparr>) \<and>
   Matrix_put (Some 0) 0 2 9 example_store = Inr (1, example_store) \<and>
   Matrix_get (Some 3) 0 0 example_store = Inr (0, example_store\<lparr>errno := EINVAL\<rparr>) \<and>
   Matrix_put (Some 3) 0 0 9 example_store = Inr (1, example_store) \<and>
   Matrix_put (Some 0) 0 1 9 example_store =
     Inr (0, store example_store 0 \<lparr>nrows = 2, ncols = 2, vals = Some [[1, 9], [3, 4]]\<rparr>)"
  using
    invalid_access [of 2 0 example_store 9 0 "\<lparr>nrows = 2, ncols = 2, vals = Some [[1, 2], [3, 4]]\<rparr>" "[]"]
    invalid_access [of 0 2 example_store 9 0 "\<lparr>nrows = 2, ncols = 2, vals = Some [[1, 2], [3, 4]]\<rparr>" "[]"]
    invalid_access [of 0 0 example_store 9 3 "\<lparr>nrows = 0, ncols = 0, vals = None\<rparr>" "[]"]
    invalid_access [of 0 1 example_store 9 0 "\<lparr>nrows = 2, ncols = 2, vals = Some [[1, 2], [3, 4]]\<rparr>"
      "[[1, 2], [3, 4]]"]
  by (simp add: example_lookup shaped_def)

subsection \<open>Construction without storage\<close>

text \<open>
  Claim C8. For \<open>r = 0\<close> or \<open>c = 0\<close>, \<open>new_Matrix(r, c)\<close> returns a matrix with
  \<open>vals == NULL\<close> whose \<open>nrows\<close> and \<open>ncols\<close> are \<open>r\<close> and \<open>c\<close>, and every \<open>Matrix_get\<close> on it
  returns 0.0 and sets \<open>errno\<close> to \<open>EINVAL\<close>, whatever the indices.
\<close>

theorem new_Matrix_without_storage:
  assumes "r = 0 \<or> c = 0"
  shows "\<exists>s'. new_Matrix r c s = Inr (Some (length (heap s)), s') \<and>
           lookup s' (length (heap s)) = Some \<lparr>nrows = r, ncols = c, vals = None\<rparr> \<and>
           (\<forall>i j. Matrix_get (Some (length (heap s))) i j s' = Inr (0, s'\<lparr>errno := EINVAL\<rparr>))"
proof -
  let ?s' = "alloc s \<lparr>nrows = r, ncols = c, vals = None\<rparr>"
  have live: "lookup ?s' (length (heap s)) = Some \<lparr>nrows = r, ncols = c, vals = None\<rparr>"
    by (simp add: lookup_alloc)
  have "Matrix_get (Some (length (heap s))) i j ?s' = Inr (0, ?s'\<lparr>errno := EINVAL\<rparr>)" for i j
    by (rule Matrix_get_invalid [OF live]) simp
  with new_Matrix_empty [OF assms] live show ?thesis
    by blast
qed

text \<open>\<open>new_Matrix(0, 3)\<close> in the empty store.\<close>

theorem new_Matrix_without_storage_witness:
  "\<exists>s'. new_Matrix 0 3 empty_store = Inr (Some 0, s') \<and>
        lookup s' 0 = Some \<lparr>nrows = 0, ncols = 3, vals = None\<rparr> \<and>
        Matrix_get (Some 0) 0 0 s' = Inr (0, s'\<lparr>errno := EINVAL\<rparr>) \<and>
        Matrix_get (Some 0) 7 2 s' = Inr (0, s'\<lparr>errno := EINVAL\<rparr>)"
  using new_Matrix_without_storage [of 0 3 empty_store]
  by (auto simp: empty_store_def)

subsection \<open>Release\<close>

text \<open>
  Claim C9. \<open>deinit_Matrix\<close> on a null handle or on a matrix without backing storage
  changes nothing. On a matrix with storage (as \<open>init_Matrix\<close> attached it: well formed,
  at most \<open>INT_MAX\<close> rows, which is what the \<open>int\<close> counter of the freeing loop needs) it
  leaves \<open>nrows == 0\<close>, \<open>ncols == 0\<close> and \<open>vals == NULL\<close> and touches no other matrix, so that
  a second \<open>deinit_Matrix\<close> changes nothing. \<open>delete_Matrix\<close> on a null handle changes
  nothing either.
\<close>

theorem release_idempotent:
  "deinit_Matrix None s = Inr s \<and>
   delete_Matrix None s = Inr s \<and>
   (lookup s a = Some m \<longrightarrow> vals m = None \<longrightarrow> deinit_Matrix (Some a) s = Inr s) \<and>
   (lookup s a = Some m \<longrightarrow> vals m \<noteq> None \<longrightarrow> built m \<longrightarrow>
      (\<exists>s'. deinit_Matrix (Some a) s = Inr s' \<and>
         lookup s' a = Some \<lparr>nrows = 0, ncols = 0, vals = None\<rparr> \<and>
         (\<forall>b. b \<noteq> a \<longrightarrow> lookup s' b = lookup s b) \<and> errno s' = errno s \<and>
         deinit_Matrix (Some a) s' = Inr s'))"
proof -
  have "\<exists>s'. deinit_Matrix (Some a) s = Inr s' \<and>
         lookup s' a = Some \<lparr>nrows = 0, ncols = 0, vals = None\<rparr> \<and>
         (\<forall>b. b \<noteq> a \<longrightarrow> lookup s' b = lookup s b) \<and> errno s' = errno s \<and>
         deinit_Matrix (Some a) s' = Inr s'"
    if live: "lookup s a = Some m" and st: "vals m \<noteq> None" and b: "built m"
  proof -
    from st obtain rows where rows: "vals m = Some rows" by auto
    let ?s' = "store s a \<lparr>nrows = 0, ncols = 0, vals = None\<rparr>"
    have first: "deinit_Matrix (Some a) s = Inr ?s'"
      using live rows shaped_rows [OF built_shaped [OF b] rows] built_rows [OF b rows]
      by (rule deinit_Matrix_storage)
    have live': "lookup ?s' a = Some \<lparr>nrows = 0, ncols = 0, vals = None\<rparr>"
      using live by (rule lookup_store_same)
    have second: "deinit_Matrix (Some a) ?s' = Inr ?s'"
      by (rule deinit_Matrix_noop(2) [OF live']) simp
    show ?thesis
      using first live' second by (intro exI [of _ ?s']) (simp add: lookup_store_other)
  qed
  then show ?thesis
    by (simp add: deinit_Matrix_noop delete_Matrix_null)
qed

text \<open>In the example store: releasing the matrix without storage, and releasing
  \<open>[[1, 2], [3, 4]]\<close> twice.\<close>

theorem release_idempotent_witness:
  "deinit_Matrix (Some 3) example_store = Inr example_store \<and>
   (\<exists>s'. deinit_Matrix (Some 0) example_store = Inr s' \<and>
      lookup s' 0 = Some \<lparr>nrows = 0, ncols = 0, vals = None\<rparr> \<and>
      lookup s' 1 = lookup example_store 1 \<and>
      deinit_Matrix (Some 0) s' = Inr s')"
  using
    release_idempotent [of example_store 3 "\<lparr>nrows = 0, ncols = 0, vals = None\<rparr>"]
    release_idempotent [of example_store 0 "\<lparr>nrows = 2, ncols = 2, vals = Some [[1, 2], [3, 4]]\<rparr>"]
  by (auto simp: example_lookup example_built(1))

subsection \<open>The error channel\<close>

text \<open>
  Claim C10. Whenever \<open>Matrix_put\<close> returns, \<open>errno\<close> is what it was. Whenever
  \<open>Matrix_get\<close> or \<open>Matrix_l1\<close> returns, either it took its failure branch, returned 0.0
  and changed \<open>errno\<close> to \<open>EINVAL\<close> and nothing else, or it left the whole store, \<open>errno\<close>
  included, as it was. A success therefore leaves an earlier \<open>EINVAL\<close> in place.
\<close>

theorem errno_discipline:
  "(\<forall>rc s'. Matrix_put M i j v s = Inr (rc, s') \<longrightarrow> errno s' = errno s) \<and>
   (\<forall>x s'. Matrix_get M i j s = Inr (x, s') \<longrightarrow>
      (if M = None \<or> (\<exists>a m. M = Some a \<and> lookup s a = Some m \<and>
                          (vals m = None \<or> nrows m \<le> i \<or> ncols m \<le> j))
       then x = 0 \<and> s' = s\<lparr>errno := EINVAL\<rparr> else s' = s)) \<and>
   (\<forall>x s'. Matrix_l1 M s = Inr (x, s') \<longrightarrow>
      (if M = None \<or> (\<exists>a m. M = Some a \<and> lookup s a = Some m \<and>
                          (vals m = None \<or> nrows m = 0 \<or> ncols m = 0))
       then x = 0 \<and> s' = s\<lparr>errno := EINVAL\<rparr> else s' = s))"
proof (intro conjI allI impI)
  fix rc s'
  assume "Matrix_put M i j v s = Inr (rc, s')"
  then show "errno s' = errno s"
    by (auto simp: Matrix_put_def modify_def andthen_def deref_def
        split: if_splits sum.splits option.splits)
next
  fix x s'
  assume "Matrix_get M i j s = Inr (x, s')"
  then show "if M = None \<or> (\<exists>a m. M = Some a \<and> lookup s a = Some m \<and>
                          (vals m = None \<or> nrows m \<le> i \<or> ncols m \<le> j))
       then x = 0 \<and> s' = s\<lparr>errno := EINVAL\<rparr> else s' = s"
    by (auto simp: Matrix_get_def andthen_def deref_def
        split: if_splits sum.splits option.splits)
next
  fix x s'
  assume "Matrix_l1 M s = Inr (x, s')"
  then show "if M = None \<or> (\<exists>a m. M = Some a \<and> lookup s a = Some m \<and>
                          (vals m = None \<or> nrows m = 0 \<or> ncols m = 0))
       then x = 0 \<and> s' = s\<lparr>errno := EINVAL\<rparr> else s' = s"
    by (auto simp: Matrix_l1_def andthen_def deref_def
        split: if_splits sum.splits option.splits)
qed

text \<open>In the example store: a failing and a succeeding put, get and L1 norm.\<close>

theorem errno_discipline_witness:
  "Matrix_put (Some 0) 0 2 9 example_store = Inr (1, example_store) \<and>
   (\<exists>s'. Matrix_put (Some 0) 0 1 9 example_store = Inr (0, s') \<and> errno s' = errno example_store) \<and>
   Matrix_get (Some 0) 0 1 example_store = Inr (2, example_store) \<and>
   Matrix_get (Some 0) 0 2 example_store = Inr (0, example_store\<lparr>errno := EINVAL\<rparr>) \<and>
   Matrix_l1 (Some 2) example_store = Inr (10, example_store) \<and>
   Matrix_l1 (Some 3) example_store = Inr (0, example_store\<lparr>errno := EINVAL\<rparr>)"
proof -
  let ?m = "\<lparr>nrows = 2, ncols = 2, vals = Some [[1, 2], [3, 4 :: real]]\<rparr>"
  have sh: "shaped ?m" by (simp add: shaped_def)
  have put: "Matrix_put (Some 0) 0 1 9 example_store =
      Inr (0, store example_store 0 (?m\<lparr>vals := Some ([[1, 2], [3, 4]][0 := ([[1, 2], [3, 4]] ! 0)[1 := 9]])\<rparr>))"
    by (rule Matrix_put_valid [OF example_lookup(1) sh]) simp_all
  have putf: "Matrix_put (Some 0) 0 2 9 example_store = Inr (1, example_store)"
    by (rule Matrix_put_invalid [OF example_lookup(1)]) simp
  have get: "Matrix_get (Some 0) 0 1 example_store = Inr ([[1, 2], [3, 4]] ! 0 ! 1, example_store)"
    by (rule Matrix_get_valid [OF example_lookup(1) sh]) simp_all
  have getf: "Matrix_get (Some 0) 0 2 example_store = Inr (0, example_store\<lparr>errno := EINVAL\<rparr>)"
    by (rule Matrix_get_invalid [OF example_lookup(1)]) simp
  have l1f: "Matrix_l1 (Some 3) example_store = Inr (0, example_store\<lparr>errno := EINVAL\<rparr>)"
    by (rule Matrix_l1_invalid(2) [OF example_lookup(4)]) simp
  from errno_discipline [of "Some 0" 0 1 9 example_store] put
  have "errno (store example_store 0
      (?m\<lparr>vals := Some ([[1, 2], [3, 4]][0 := ([[1, 2], [3, 4]] ! 0)[1 := 9]])\<rparr>)) = errno example_store"
    by blast
  with put putf get getf l1f example_l1 show ?thesis
    by simp
qed

section \<open>Arithmetic and norms\<close>

subsection \<open>Multiplication\<close>

text \<open>
  For operands with storage as \<open>init_Matrix\<close> attaches it, and whatever the arithmetic of
  the element type: \<open>Matrix_mult(A, B)\<close> returns \<open>NULL\<close>, leaving the store as it was, exactly
  when \<open>A.nrows == B.ncols && A.ncols == B.nrows\<close> fails; when it holds, the result is a
  matrix at an address that was not in use, with \<open>A.nrows\<close> rows and \<open>B.ncols\<close> columns,
  whose entry \<open>(i, j)\<close> is what the rounds \<open>k = 0, ..., A.ncols - 1\<close> accumulate; no other
  matrix and not \<open>errno\<close> changes.

  The three counters run to \<open>A.nrows\<close>, to \<open>B.ncols = A.nrows\<close> and to
  \<open>A.ncols = B.nrows\<close>: the row bound of \<open>built\<close> on both operands keeps all three
  within \<open>INT_MAX\<close>.
\<close>

lemma Matrix_mult_accumulates:
  assumes "lookup s a = Some mA" and "vals mA = Some ra" and "built mA"
    and "lookup s b = Some mB" and "vals mB = Some rb" and "built mB"
  shows "(\<not> (nrows mA = ncols mB \<and> ncols mA = nrows mB) \<longrightarrow>
            Matrix_mult (Some a) (Some b) s = Inr (None, s)) \<and>
         (nrows mA = ncols mB \<and> ncols mA = nrows mB \<longrightarrow>
            (\<exists>r s' m'. Matrix_mult (Some a) (Some b) s = Inr (Some r, s') \<and>
               lookup s r = None \<and> lookup s' r = Some m' \<and> built m' \<and>
               nrows m' = nrows mA \<and> ncols m' = ncols mB \<and>
               (\<forall>x. x \<noteq> r \<longrightarrow> lookup s' x = lookup s x) \<and> errno s' = errno s \<and>
               (\<forall>i<nrows mA. \<forall>j<ncols mB.
                  Matrix_get (Some r) i j s' = Inr (accumulated ra rb i j (ncols mA), s'))))"
proof (intro conjI impI)
  assume "\<not> (nrows mA = ncols mB \<and> ncols mA = nrows mB)"
  then show "Matrix_mult (Some a) (Some b) s = Inr (None, s)"
    using assms(1,4) by (intro Matrix_mult_invalid(2)) auto
next
  assume shape: "nrows mA = ncols mB \<and> ncols mA = nrows mB"
  let ?r = "length (heap s)"
  let ?nr = "nrows mA" and ?n = "ncols mA"
  let ?P = "\<lambda>i j. accumulated ra rb i j ?n"
  have shA: "shaped mA" and shB: "shaped mB"
    using assms(3,6) by (simp_all add: built_shaped)
  have bA: "?nr \<le> INT_MAX" and bB: "?n \<le> INT_MAX"
    using built_rows [OF assms(3,2)] built_rows [OF assms(6,5)] shape by simp_all
  have "\<exists>s' m'. Matrix_mult (Some a) (Some b) s = Inr (Some ?r, s') \<and>
          lookup s' ?r = Some m' \<and> built m' \<and> nrows m' = ?nr \<and> ncols m' = ?nr \<and>
          s' = alloc s m' \<and>
          (\<forall>i<?nr. \<forall>j<?nr. Matrix_get (Some ?r) i j s' = Inr (?P i j, s'))"
  proof (cases "?nr = 0")
    case True
    let ?m' = "\<lparr>nrows = 0, ncols = 0, vals = None\<rparr> :: 'a Matrix"
    have "Matrix_mult (Some a) (Some b) s = Inr (Some ?r, alloc s ?m')"
      using assms(1,2) True _ assms(4,5) by (rule Matrix_mult_without_storage) (use shape True in simp_all)
    then show ?thesis
      using True by (intro exI [of _ "alloc s ?m'"] exI [of _ ?m']) (simp add: lookup_alloc built_empty)
  next
    case False
    let ?m' = "\<lparr>nrows = ?nr, ncols = ?nr, vals = Some (table ?nr ?nr ?P)\<rparr>"
    have run: "Matrix_mult (Some a) (Some b) s = Inr (Some ?r, alloc s ?m')"
      by (rule Matrix_mult_storage [OF assms(1) shA assms(2) refl refl assms(4) shB assms(5)])
        (use shape False bA bB in simp_all)
    have live: "lookup (alloc s ?m') ?r = Some ?m'"
      by (simp add: lookup_alloc)
    have "Matrix_get (Some ?r) i j (alloc s ?m') = Inr (?P i j, alloc s ?m')"
      if "i < ?nr" "j < ?nr" for i j
      using Matrix_get_valid [OF live shaped_table_iff, of "table ?nr ?nr ?P" i j] that by simp
    with run live bA show ?thesis
      by (intro exI [of _ "alloc s ?m'"] exI [of _ ?m']) (simp add: built_table)
  qed
  then obtain s' m' where res: "Matrix_mult (Some a) (Some b) s = Inr (Some ?r, s')"
      "lookup s' ?r = Some m'" "built m'" "nrows m' = ?nr" "ncols m' = ?nr" "s' = alloc s m'"
      "\<forall>i<?nr. \<forall>j<?nr. Matrix_get (Some ?r) i j s' = Inr (?P i j, s')"
    by blast
  show "\<exists>r s' m'. Matrix_mult (Some a) (Some b) s = Inr (Some r, s') \<and>
               lookup s r = None \<and> lookup s' r = Some m' \<and> built m' \<and>
               nrows m' = nrows mA \<and> ncols m' = ncols mB \<and>
               (\<forall>x. x \<noteq> r \<longrightarrow> lookup s' x = lookup s x) \<and> errno s' = errno s \<and>
               (\<forall>i<nrows mA. \<forall>j<ncols mB.
                  Matrix_get (Some r) i j s' = Inr (accumulated ra rb i j (ncols mA), s'))"
    using res(1-5,7) shape
    by (intro exI [of _ ?r] exI [of _ s'] exI [of _ m']) (simp add: res(6) lookup_alloc)
qed

text \<open>Over the reals the accumulated value is the sum of the products.\<close>

lemma accumulated_real:
  fixes ra rb :: "real list list"
  shows "accumulated ra rb i j n = (\<Sum>k<n. ra ! i ! k * rb ! k ! j)"
  by (induction n) (simp_all add: accumulated_Suc)

text \<open>In the binary64 fragment: sums and products of the doubles at hand.\<close>

lemma ieee_zero_add [simp]: "0 + Finite x = Finite x" "Finite x + 0 = Finite x"
  by (simp_all add: zero_ieee_def plus_ieee_def)

lemma ieee_unit [simp]:
  "Finite x * Finite 1 = Finite x" "Finite x * Finite 0 = Finite 0"
  "Finite x + Finite 0 = Finite x" "Finite 0 + Finite x = Finite x"
  by (simp_all add: times_ieee_def plus_ieee_def)

lemma ieee_inf [simp]:
  "PosInf * Finite 1 = PosInf" "PosInf * Finite 0 = NaN"
  "0 + PosInf = PosInf" "0 + NaN = NaN" "PosInf + Finite 0 = PosInf" "NaN + Finite x = NaN"
  by (simp_all add: times_ieee_def plus_ieee_def zero_ieee_def)

lemma ieee_tie [simp]:
  "Finite 9007199254740992 + Finite 1 = Finite 9007199254740992"
  "Finite 9007199254740992 + Finite (- 9007199254740992) = Finite 0"
  "Finite (- 9007199254740992) * Finite 1 = Finite (- 9007199254740992)"
  by (simp_all add: times_ieee_def plus_ieee_def small_def nearest_even_def)

lemma accumulated_two:
  "accumulated ra rb i j 2 = 0 + ra ! i ! 0 * rb ! 0 ! j + ra ! i ! 1 * rb ! 1 ! j"
  by (simp add: numeral_2_eq_2 accumulated_Suc)

lemma accumulated_three:
  "accumulated ra rb i j 3 =
     0 + ra ! i ! 0 * rb ! 0 ! j + ra ! i ! 1 * rb ! 1 ! j + ra ! i ! 2 * rb ! 2 ! j"
  by (simp add: numeral_3_eq_3 numeral_2_eq_2 accumulated_Suc)

lemma table_1_1: "table (Suc 0) (Suc 0) f = [[f 0 0]]"
  by (simp add: table_def)

lemma table_2_2: "table 2 2 f = [[f 0 0, f 0 1], [f 1 0, f 1 1]]"
  by (simp add: table_def numeral_2_eq_2)

lemma small_built:
  "built \<lparr>nrows = 2, ncols = 2, vals = Some [[a, b], [c, d]]\<rparr>"
  "built \<lparr>nrows = 1, ncols = 2, vals = Some [[a, b]]\<rparr>"
  "built \<lparr>nrows = 1, ncols = 3, vals = Some [[a, b, c]]\<rparr>"
  "built \<lparr>nrows = 3, ncols = 1, vals = Some [[a], [b], [c]]\<rparr>"
  by (simp_all add: built_def shaped_def INT_MAX_def)

lemma ieee_lookup:
  "lookup ieee_store 0 =
     Some \<lparr>nrows = 2, ncols = 2, vals = Some [[Finite 1, Finite 2], [Finite 3, Finite 4]]\<rparr>"
  "lookup ieee_store 1 =
     Some \<lparr>nrows = 2, ncols = 2, vals = Some [[Finite 1, Finite 0], [Finite 0, Finite 1]]\<rparr>"
  "lookup ieee_store 2 = Some \<lparr>nrows = 1, ncols = 2, vals = Some [[Finite 5, Finite 6]]\<rparr>"
  by (simp_all add: lookup_def ieee_store_def)

text \<open>
  Claim C1 as stated gives the entries as the sums of the products and returns every
  \<open>2 \<times> 2\<close> matrix unchanged from a multiplication by the identity. In \<open>double\<close> arithmetic
  neither holds. \<open>[[inf, 2], [3, 4]]\<close> times the identity has NaN in place of the 2:
  \<open>inf * 0\<close> is NaN, and NaN stays. The row \<open>[[2^53, 1, -2^53]]\<close> times a column of ones
  is 0, where the sum of the products is 1: \<open>2^53 + 1\<close> is a tie and rounds to \<open>2^53\<close>.
\<close>

theorem Matrix_mult_not_exact:
  "Matrix_mult (Some 0) (Some 1) inf_store =
     Inr (Some 2, alloc inf_store
       \<lparr>nrows = 2, ncols = 2, vals = Some [[PosInf, NaN], [Finite 3, Finite 4]]\<rparr>) \<and>
   Matrix_mult (Some 0) (Some 1) rounding_store =
     Inr (Some 2, alloc rounding_store \<lparr>nrows = 1, ncols = 1, vals = Some [[Finite 0]]\<rparr>) \<and>
   9007199254740992 * 1 + 1 * 1 + (- 9007199254740992) * 1 = (1 :: real)"
proof -
  have la: "lookup inf_store 0 =
      Some \<lparr>nrows = 2, ncols = 2, vals = Some [[PosInf, Finite 2], [Finite 3, Finite 4]]\<rparr>"
    and lb: "lookup inf_store 1 =
      Some \<lparr>nrows = 2, ncols = 2, vals = Some [[Finite 1, Finite 0], [Finite 0, Finite 1]]\<rparr>"
    by (simp_all add: lookup_def inf_store_def)
  have "Matrix_mult (Some 0) (Some 1) inf_store =
      Inr (Some (length (heap inf_store)), alloc inf_store \<lparr>nrows = 2, ncols = 2,
        vals = Some (table 2 2 (\<lambda>i j. accumulated [[PosInf, Finite 2], [Finite 3, Finite 4]]
                [[Finite 1, Finite 0], [Finite 0, Finite 1]] i j 2))\<rparr>)"
    by (rule Matrix_mult_storage [OF la _ _ _ _ lb])
      (simp_all add: shaped_def INT_MAX_def)
  moreover have "table 2 2 (\<lambda>i j. accumulated [[PosInf, Finite 2], [Finite 3, Finite 4]]
                [[Finite 1, Finite 0], [Finite 0, Finite 1]] i j 2) =
      [[PosInf, NaN], [Finite 3, Finite 4]]"
    by (simp add: table_2_2 accumulated_two)
  moreover have "length (heap inf_store) = 2"
    by (simp add: inf_store_def)
  ultimately have first: "Matrix_mult (Some 0) (Some 1) inf_store =
     Inr (Some 2, alloc inf_store
       \<lparr>nrows = 2, ncols = 2, vals = Some [[PosInf, NaN], [Finite 3, Finite 4]]\<rparr>)"
    by simp
  have ra: "lookup rounding_store 0 = Some \<lparr>nrows = 1, ncols = 3,
        vals = Some [[Finite 9007199254740992, Finite 1, Finite (- 9007199254740992)]]\<rparr>"
    and rb: "lookup rounding_store 1 =
      Some \<lparr>nrows = 3, ncols = 1, vals = Some [[Finite 1], [Finite 1], [Finite 1]]\<rparr>"
    by (simp_all add: lookup_def rounding_store_def)
  have "Matrix_mult (Some 0) (Some 1) rounding_store =
      Inr (Some (length (heap rounding_store)), alloc rounding_store \<lparr>nrows = 1, ncols = 1,
        vals = Some (table 1 1 (\<lambda>i j. accumulated
                [[Finite 9007199254740992, Finite 1, Finite (- 9007199254740992)]]
                [[Finite 1], [Finite 1], [Finite 1]] i j 3))\<rparr>)"
    by (rule Matrix_mult_storage [OF ra _ _ _ _ rb])
      (simp_all add: shaped_def INT_MAX_def)
  moreover have "table 1 1 (\<lambda>i j. accumulated
                [[Finite 9007199254740992, Finite 1, Finite (- 9007199254740992)]]
                [[Finite 1], [Finite 1], [Finite 1]] i j 3) = [[Finite 0]]"
    by (simp add: table_1_1 accumulated_three)
  moreover have "length (heap rounding_store) = 2"
    by (simp add: rounding_store_def)
  ultimately have second: "Matrix_mult (Some 0) (Some 1) rounding_store =
     Inr (Some 2, alloc rounding_store \<lparr>nrows = 1, ncols = 1, vals = Some [[Finite 0]]\<rparr>)"
    by simp
  from first second show ?thesis
    by simp
qed

text \<open>
  Claim C1, amended. For matrices \<open>A\<close> and \<open>B\<close> that are non-null and have backing
  storage (as \<open>init_Matrix\<close> attaches it), \<open>Matrix_mult(A, B)\<close> returns \<open>NULL\<close>, leaving the
  store as it was, exactly when \<open>A.nrows == B.ncols && A.ncols == B.nrows\<close> fails. When
  it holds, the result is a matrix at an address that was not in use, with \<open>A.nrows\<close>
  rows and \<open>B.ncols\<close> columns, whose entry \<open>(i, j)\<close> is the double that
  \<open>ret[i][j] += A[i][k] * B[k][j]\<close> accumulates from 0.0 for \<open>k = 0, ..., A.ncols - 1\<close> in
  this order, with the sums and products of \<open>double\<close> arithmetic; no other matrix and
  not \<open>errno\<close> changes. In particular a \<open>2 \<times> 2\<close> matrix of finite entries times the
  \<open>2 \<times> 2\<close> identity comes back entry by entry.

  The first part is stated for every element type and arithmetic, the second in the
  binary64 fragment.
\<close>

theorem Matrix_mult_double:
  fixes s :: "'a::{zero,plus,times} state" and t :: "ieee state"
  shows
    "(lookup s a = Some mA \<and> vals mA = Some ra \<and> built mA \<and>
      lookup s b = Some mB \<and> vals mB = Some rb \<and> built mB \<longrightarrow>
        (\<not> (nrows mA = ncols mB \<and> ncols mA = nrows mB) \<longrightarrow>
           Matrix_mult (Some a) (Some b) s = Inr (None, s)) \<and>
        (nrows mA = ncols mB \<and> ncols mA = nrows mB \<longrightarrow>
           (\<exists>r s' m'. Matrix_mult (Some a) (Some b) s = Inr (Some r, s') \<and>
              lookup s r = None \<and> lookup s' r = Some m' \<and> built m' \<and>
              nrows m' = nrows mA \<and> ncols m' = ncols mB \<and>
              (\<forall>x. x \<noteq> r \<longrightarrow> lookup s' x = lookup s x) \<and> errno s' = errno s \<and>
              (\<forall>i<nrows mA. \<forall>j<ncols mB.
                 Matrix_get (Some r) i j s' = Inr (accumulated ra rb i j (ncols mA), s'))))) \<and>
     (lookup t c = Some \<lparr>nrows = 2, ncols = 2,
          vals = Some [[Finite w, Finite x], [Finite y, Finite z]]\<rparr> \<and>
      lookup t d = Some \<lparr>nrows = 2, ncols = 2,
          vals = Some [[Finite 1, Finite 0], [Finite 0, Finite 1]]\<rparr> \<longrightarrow>
        (\<exists>r t'. Matrix_mult (Some c) (Some d) t = Inr (Some r, t') \<and>
           Matrix_get (Some r) 0 0 t' = Inr (Finite w, t') \<and>
           Matrix_get (Some r) 0 1 t' = Inr (Finite x, t') \<and>
           Matrix_get (Some r) 1 0 t' = Inr (Finite y, t') \<and>
           Matrix_get (Some r) 1 1 t' = Inr (Finite z, t')))"
proof (rule conjI; rule impI)
  assume h: "lookup s a = Some mA \<and> vals mA = Some ra \<and> built mA \<and>
      lookup s b = Some mB \<and> vals mB = Some rb \<and> built mB"
  then have *: "lookup s a = Some mA" "vals mA = Some ra" "built mA"
      "lookup s b = Some mB" "vals mB = Some rb" "built mB"
    by simp_all
  show "(\<not> (nrows mA = ncols mB \<and> ncols mA = nrows mB) \<longrightarrow>
           Matrix_mult (Some a) (Some b) s = Inr (None, s)) \<and>
        (nrows mA = ncols mB \<and> ncols mA = nrows mB \<longrightarrow>
           (\<exists>r s' m'. Matrix_mult (Some a) (Some b) s = Inr (Some r, s') \<and>
              lookup s r = None \<and> lookup s' r = Some m' \<and> built m' \<and>
              nrows m' = nrows mA \<and> ncols m' = ncols mB \<and>
              (\<forall>x. x \<noteq> r \<longrightarrow> lookup s' x = lookup s x) \<and> errno s' = errno s \<and>
              (\<forall>i<nrows mA. \<forall>j<ncols mB.
                 Matrix_get (Some r) i j s' = Inr (accumulated ra rb i j (ncols mA), s'))))"
    by (rule Matrix_mult_accumulates [OF *])
next
  let ?A = "[[Finite w, Finite x], [Finite y, Finite z]]"
  let ?I = "[[Finite 1, Finite 0], [Finite 0, Finite 1]]"
  assume h: "lookup t c = Some \<lparr>nrows = 2, ncols = 2, vals = Some ?A\<rparr> \<and>
      lookup t d = Some \<lparr>nrows = 2, ncols = 2, vals = Some ?I\<rparr>"
  from Matrix_mult_accumulates [OF conjunct1 [OF h] _ small_built(1) conjunct2 [OF h] _
      small_built(1), of ?A ?I]
  obtain r t' where run: "Matrix_mult (Some c) (Some d) t = Inr (Some r, t')"
    and get: "\<forall>i<2. \<forall>j<2. Matrix_get (Some r) i j t' = Inr (accumulated ?A ?I i j 2, t')"
    by auto
  from get have "Matrix_get (Some r) 0 0 t' = Inr (Finite w, t')"
      "Matrix_get (Some r) 0 1 t' = Inr (Finite x, t')"
      "Matrix_get (Some r) 1 0 t' = Inr (Finite y, t')"
      "Matrix_get (Some r) 1 1 t' = Inr (Finite z, t')"
    by (simp_all add: less_two accumulated_two)
  with run show "\<exists>r t'. Matrix_mult (Some c) (Some d) t = Inr (Some r, t') \<and>
           Matrix_get (Some r) 0 0 t' = Inr (Finite w, t') \<and>
           Matrix_get (Some r) 0 1 t' = Inr (Finite x, t') \<and>
           Matrix_get (Some r) 1 0 t' = Inr (Finite y, t') \<and>
           Matrix_get (Some r) 1 1 t' = Inr (Finite z, t')"
    by blast
qed

text \<open>In the store of doubles: \<open>[[1, 2], [3, 4]]\<close> times the row \<open>[[5, 6]]\<close>, which the
  shape test rejects; times itself; and times the identity.\<close>

theorem Matrix_mult_double_witness:
  "Matrix_mult (Some 0) (Some 2) ieee_store = Inr (None, ieee_store) \<and>
   (\<exists>r s'. Matrix_mult (Some 0) (Some 0) ieee_store = Inr (Some r, s') \<and>
      Matrix_get (Some r) 0 0 s' = Inr (Finite 7, s') \<and>
      Matrix_get (Some r) 0 1 s' = Inr (Finite 10, s') \<and>
      Matrix_get (Some r) 1 0 s' = Inr (Finite 15, s') \<and>
      Matrix_get (Some r) 1 1 s' = Inr (Finite 22, s')) \<and>
   (\<exists>r s'. Matrix_mult (Some 0) (Some 1) ieee_store = Inr (Some r, s') \<and>
      Matrix_get (Some r) 0 0 s' = Inr (Finite 1, s') \<and>
      Matrix_get (Some r) 0 1 s' = Inr (Finite 2, s') \<and>
      Matrix_get (Some r) 1 0 s' = Inr (Finite 3, s') \<and>
      Matrix_get (Some r) 1 1 s' = Inr (Finite 4, s'))"
proof (intro conjI)
  let ?A = "[[Finite 1, Finite 2], [Finite 3, Finite 4]]"
  let ?mA = "\<lparr>nrows = 2, ncols = 2, vals = Some ?A\<rparr>"
  let ?R = "[[Finite 5, Finite 6]]"
  let ?mR = "\<lparr>nrows = 1, ncols = 2, vals = Some ?R\<rparr>"
  have bA: "built ?mA" and bR: "built ?mR"
    by (rule small_built)+
  show "Matrix_mult (Some 0) (Some 2) ieee_store = Inr (None, ieee_store)"
    using Matrix_mult_double [where s = ieee_store and a = 0 and mA = ?mA and ra = ?A
        and b = 2 and mB = ?mR and rb = ?R] bA bR
    by (simp add: ieee_lookup)
  have prod: "Finite 1 * Finite 1 = Finite 1" "Finite 2 * Finite 3 = Finite 6"
      "Finite 1 * Finite 2 = Finite 2" "Finite 2 * Finite 4 = Finite 8"
      "Finite 3 * Finite 1 = Finite 3" "Finite 4 * Finite 3 = Finite 12"
      "Finite 3 * Finite 2 = Finite 6" "Finite 4 * Finite 4 = Finite 16"
      "Finite 1 + Finite 6 = Finite 7" "Finite 2 + Finite 8 = Finite 10"
      "Finite 3 + Finite 12 = Finite 15" "Finite 6 + Finite 16 = Finite 22"
    by (simp_all add: times_ieee_def plus_ieee_def small_def nearest_even_def)
  show "\<exists>r s'. Matrix_mult (Some 0) (Some 0) ieee_store = Inr (Some r, s') \<and>
      Matrix_get (Some r) 0 0 s' = Inr (Finite 7, s') \<and>
      Matrix_get (Some r) 0 1 s' = Inr (Finite 10, s') \<and>
      Matrix_get (Some r) 1 0 s' = Inr (Finite 15, s') \<and>
      Matrix_get (Some r) 1 1 s' = Inr (Finite 22, s')"
    using Matrix_mult_double [where s = ieee_store and a = 0 and mA = ?mA and ra = ?A
        and b = 0 and mB = ?mA and rb = ?A] bA
    by (simp add: ieee_lookup less_two accumulated_two prod) blast
  show "\<exists>r s'. Matrix_mult (Some 0) (Some 1) ieee_store = Inr (Some r, s') \<and>
      Matrix_get (Some r) 0 0 s' = Inr (Finite 1, s') \<and>
      Matrix_get (Some r) 0 1 s' = Inr (Finite 2, s') \<and>
      Matrix_get (Some r) 1 0 s' = Inr (Finite 3, s') \<and>
      Matrix_get (Some r) 1 1 s' = Inr (Finite 4, s')"
    by (rule Matrix_mult_double [where 'a = ieee, THEN conjunct2, THEN mp])
      (simp add: lookup_def ieee_store_def)
qed

subsection \<open>Construction with storage\<close>

text \<open>
  For \<open>0 < r \<le> INT_MAX\<close> and \<open>0 < c\<close>, \<open>new_Matrix(r, c)\<close> returns a matrix at an address
  that was not in use, with storage of \<open>r\<close> rows and \<open>c\<close> columns, and every entry reads
  0.0 with no error signalled.
\<close>

lemma new_Matrix_zero:
  assumes "0 < r" and "r \<le> INT_MAX" and "0 < c"
  shows "\<exists>s' m'. new_Matrix r c s = Inr (Some (length (heap s)), s') \<and>
           lookup s (length (heap s)) = None \<and>
           lookup s' (length (heap s)) = Some m' \<and> vals m' \<noteq> None \<and> built m' \<and>
           nrows m' = r \<and> ncols m' = c \<and>
           (\<forall>x. x \<noteq> length (heap s) \<longrightarrow> lookup s' x = lookup s x) \<and> errno s' = errno s \<and>
           (\<forall>i<r. \<forall>j<c. Matrix_get (Some (length (heap s))) i j s' = Inr (0, s'))"
proof -
  let ?m' = "\<lparr>nrows = r, ncols = c, vals = Some (table r c (\<lambda>_ _. 0))\<rparr>"
  have run: "new_Matrix r c s = Inr (Some (length (heap s)), alloc s ?m')"
    using assms by (rule new_Matrix_storage)
  have live: "lookup (alloc s ?m') (length (heap s)) = Some ?m'"
    by (simp add: lookup_alloc)
  have "Matrix_get (Some (length (heap s))) i j (alloc s ?m') = Inr (0, alloc s ?m')"
    if "i < r" "j < c" for i j
    using Matrix_get_valid [OF live shaped_table_iff, of "table r c (\<lambda>_ _. 0)" i j] that by simp
  with run live assms(2) show ?thesis
    by (intro exI [of _ "alloc s ?m'"] exI [of _ ?m']) (simp add: built_table lookup_alloc)
qed

text \<open>
  Claim C3 states this for every \<open>r > 0\<close> and \<open>c > 0\<close>. \<open>init_Matrix\<close> counts the rows
  in \<open>int i\<close> against the \<open>size_t nrows\<close>: for \<open>new_Matrix(2147483649, 1)\<close> the counter
  reaches \<open>INT_MAX\<close> with rows left to allocate, and \<open>i++\<close> overflows.
\<close>

theorem new_Matrix_tall: "new_Matrix 2147483649 1 empty_store = Inl SignedOverflow"
  by (rule new_Matrix_overflow) (simp_all add: INT_MAX_def)

subsection \<open>A row longer than \<open>INT_MAX\<close>\<close>

text \<open>\<open>new_Matrix(1, 2147483649)\<close> needs one round of the row loop and succeeds; so does
  \<open>Matrix_put\<close> on its last column.\<close>

lemma wide_lookup: "lookup wide_store 0 = Some wide"
  by (simp add: wide_store_def lookup_alloc empty_store_def)

lemma wide_shaped: "shaped wide"
  unfolding wide_def by (rule shaped_table_iff)

lemma new_Matrix_wide: "new_Matrix 1 2147483649 empty_store = Inr (Some 0, wide_store)"
  using new_Matrix_storage [of 1 2147483649 empty_store]
  by (simp add: INT_MAX_def wide_store_def wide_def empty_store_def)

lemma Matrix_put_wide: "Matrix_put (Some 0) 0 2147483648 1 wide_store = Inr (0, wide_put_store)"
  using Matrix_put_valid [OF wide_lookup wide_shaped, of "table 1 2147483649 (\<lambda>_ _. 0)" 0 2147483648 1]
  by (simp add: wide_put_store_def wide_put_def) (simp add: wide_def)

lemma wide_put_lookup: "lookup wide_put_store 0 = Some wide_put"
  unfolding wide_put_store_def using wide_lookup by (rule lookup_store_same)

lemma wide_put_vals:
  "vals wide_put = Some ((table 1 2147483649 (\<lambda>_ _. 0))
       [0 := (table 1 2147483649 (\<lambda>_ _. 0) ! 0)[2147483648 := 1]])"
  "nrows wide_put = 1" "ncols wide_put = 2147483649"
  by (simp_all add: wide_put_def wide_def)

lemma wide_put_shaped: "shaped wide_put"
  unfolding wide_put_def by (rule shaped_update [OF wide_shaped]) (simp add: wide_def)

lemma wide_put_entry:
  "Matrix_get (Some 0) 0 2147483648 wide_put_store = Inr (1, wide_put_store)"
  using Matrix_get_valid [OF wide_put_lookup wide_put_shaped wide_put_vals(1), of 0 2147483648]
  by (simp add: wide_put_vals)

subsection \<open>Addition\<close>

text \<open>
  \<open>Matrix_add(A, B)\<close> returns \<open>NULL\<close>, leaving the store as it was, when \<open>A\<close> or \<open>B\<close> is
  null, has no storage, or the dimensions differ. Otherwise, for well-formed operands
  of at most \<open>INT_MAX\<close> rows and \<open>INT_MAX\<close> columns, it returns a matrix at an address that
  was not in use, of the same dimensions, whose entry \<open>(i, j)\<close> is \<open>A[i][j] + B[i][j]\<close>
  (over the reals); no other matrix (\<open>A\<close> and \<open>B\<close> among them) and not \<open>errno\<close> changes.
\<close>

lemma Matrix_add_correct:
  assumes "lookup s a = Some mA" and "lookup s b = Some mB"
  shows "(vals mA = None \<or> vals mB = None \<or> nrows mA \<noteq> nrows mB \<or> ncols mA \<noteq> ncols mB \<longrightarrow>
            Matrix_add (Some a) (Some b) s = Inr (None, s)) \<and>
         (vals mA = Some ra \<and> vals mB = Some rb \<and> nrows mA = nrows mB \<and> ncols mA = ncols mB \<and>
          shaped mA \<and> shaped mB \<and> nrows mA \<le> INT_MAX \<and> ncols mA \<le> INT_MAX \<longrightarrow>
            (\<exists>r s' m'. Matrix_add (Some a) (Some b) s = Inr (Some r, s') \<and>
               lookup s r = None \<and> lookup s' r = Some m' \<and> built m' \<and>
               nrows m' = nrows mA \<and> ncols m' = ncols mA \<and>
               (\<forall>x. x \<noteq> r \<longrightarrow> lookup s' x = lookup s x) \<and> errno s' = errno s \<and>
               (\<forall>i<nrows mA. \<forall>j<ncols mA.
                  Matrix_get (Some r) i j s' = Inr (ra ! i ! j + rb ! i ! j, s'))))"
proof (intro conjI impI)
  assume "vals mA = None \<or> vals mB = None \<or> nrows mA \<noteq> nrows mB \<or> ncols mA \<noteq> ncols mB"
  then show "Matrix_add (Some a) (Some b) s = Inr (None, s)"
    using assms by (intro Matrix_add_invalid(2)) auto
next
  assume h: "vals mA = Some ra \<and> vals mB = Some rb \<and> nrows mA = nrows mB \<and> ncols mA = ncols mB \<and>
          shaped mA \<and> shaped mB \<and> nrows mA \<le> INT_MAX \<and> ncols mA \<le> INT_MAX"
  let ?r = "length (heap s)"
  let ?nr = "nrows mA" and ?nc = "ncols mA"
  let ?P = "\<lambda>i j. ra ! i ! j + rb ! i ! j"
  have "\<exists>m'. Matrix_add (Some a) (Some b) s = Inr (Some ?r, alloc s m') \<and> built m' \<and>
          nrows m' = ?nr \<and> ncols m' = ?nc \<and>
          (\<forall>i<?nr. \<forall>j<?nc. Matrix_get (Some ?r) i j (alloc s m') = Inr (?P i j, alloc s m'))"
  proof (cases "?nr = 0 \<or> ?nc = 0")
    case True
    let ?m' = "\<lparr>nrows = ?nr, ncols = ?nc, vals = None\<rparr>"
    have "Matrix_add (Some a) (Some b) s = Inr (Some ?r, alloc s ?m')"
      by (rule Matrix_add_without_storage [OF assms(1) _ refl refl assms(2), of ra rb])
        (use h True in simp_all)
    moreover have "\<forall>i<?nr. \<forall>j<?nc. Matrix_get (Some ?r) i j (alloc s ?m') = Inr (?P i j, alloc s ?m')"
      using True by auto
    ultimately show ?thesis
      by (intro exI [of _ ?m']) (simp add: built_empty)
  next
    case False
    let ?m' = "\<lparr>nrows = ?nr, ncols = ?nc, vals = Some (table ?nr ?nc ?P)\<rparr>"
    have run: "Matrix_add (Some a) (Some b) s = Inr (Some ?r, alloc s ?m')"
      by (rule Matrix_add_storage [OF assms(1) _ _ refl refl assms(2), of ra rb])
        (use h False in simp_all)
    have live: "lookup (alloc s ?m') ?r = Some ?m'"
      by (simp add: lookup_alloc)
    have "Matrix_get (Some ?r) i j (alloc s ?m') = Inr (?P i j, alloc s ?m')"
      if "i < ?nr" "j < ?nc" for i j
      using Matrix_get_valid [OF live shaped_table_iff, of "table ?nr ?nc ?P" i j] that by simp
    with run h show ?thesis
      by (intro exI [of _ ?m']) (simp add: built_table)
  qed
  then obtain m' where res: "Matrix_add (Some a) (Some b) s = Inr (Some ?r, alloc s m')"
      "built m'" "nrows m' = ?nr" "ncols m' = ?nc"
      "\<forall>i<?nr. \<forall>j<?nc. Matrix_get (Some ?r) i j (alloc s m') = Inr (?P i j, alloc s m')"
    by blast
  then show "\<exists>r s' m'. Matrix_add (Some a) (Some b) s = Inr (Some r, s') \<and>
               lookup s r = None \<and> lookup s' r = Some m' \<and> built m' \<and>
               nrows m' = nrows mA \<and> ncols m' = ncols mA \<and>
               (\<forall>x. x \<noteq> r \<longrightarrow> lookup s' x = lookup s x) \<and> errno s' = errno s \<and>
               (\<forall>i<nrows mA. \<forall>j<ncols mA.
                  Matrix_get (Some r) i j s' = Inr (ra ! i ! j + rb ! i ! j, s'))"
    by (intro exI [of _ ?r] exI [of _ "alloc s m'"] exI [of _ m']) (simp add: lookup_alloc)
qed

lemma Matrix_add_null: "A = None \<or> B = None \<Longrightarrow> Matrix_add A B s = Inr (None, s)"
  by (rule Matrix_add_invalid(1))

text \<open>
  Claim C2 states the sum for all operands of equal dimensions. The column loop of
  \<open>Matrix_add\<close> counts in \<open>int j\<close> against the \<open>size_t ncols\<close>: on the one-row matrix of
  2147483649 columns built above, added to itself, the counter reaches \<open>INT_MAX\<close> with
  the column that holds 1.0 still to come, and \<open>j++\<close> overflows.
\<close>

theorem Matrix_add_wide:
  "new_Matrix 1 2147483649 empty_store = Inr (Some 0, wide_store) \<and>
   Matrix_put (Some 0) 0 2147483648 1 wide_store = Inr (0, wide_put_store) \<and>
   Matrix_get (Some 0) 0 2147483648 wide_put_store = Inr (1, wide_put_store) \<and>
   Matrix_add (Some 0) (Some 0) wide_put_store = Inl SignedOverflow"
proof -
  have "Matrix_add (Some 0) (Some 0) wide_put_store = Inl SignedOverflow"
    by (rule Matrix_add_overflow [OF wide_put_lookup wide_put_shaped wide_put_vals
          wide_put_lookup wide_put_shaped wide_put_vals]) (simp_all add: INT_MAX_def)
  with new_Matrix_wide Matrix_put_wide wide_put_entry show ?thesis
    by simp
qed

subsection \<open>The norms\<close>

text \<open>
  Over the reals: for a well-formed matrix with storage, \<open>0 < nrows \<le> INT_MAX\<close> and
  \<open>0 < ncols \<le> INT_MAX\<close>, \<open>Matrix_l1\<close> returns the sum of the absolute values of the
  entries and \<open>Matrix_l2\<close> the square root of the sum of their squares, both leaving the
  store as it was. For \<open>[[-1, 2], [3, -4]]\<close> these are 10 and \<open>sqrt 30\<close> (lemmas
  \<open>example_l1\<close> and \<open>example_l2\<close>).
\<close>

lemma norms_correct:
  assumes "lookup s a = Some m" and "vals m = Some rows" and "shaped m"
    and "0 < nrows m" and "nrows m \<le> INT_MAX" and "0 < ncols m" and "ncols m \<le> INT_MAX"
  shows "Matrix_l1 (Some a) s = Inr (\<Sum>i<nrows m. \<Sum>j<ncols m. \<bar>rows ! i ! j\<bar>, s) \<and>
         Matrix_l2 (Some a) s = Inr (sqrt (\<Sum>i<nrows m. \<Sum>j<ncols m. (rows ! i ! j)\<^sup>2), s)"
  using assms by (simp add: Matrix_l1_storage Matrix_l2_storage)

text \<open>
  Claim C6 states the two sums for every matrix with storage and positive
  dimensions. Both norms count the columns in \<open>int j\<close> against the \<open>size_t ncols\<close>: on the
  one-row matrix of 2147483649 columns, whose last entry is 1.0, the counter reaches
  \<open>INT_MAX\<close> before that entry, and \<open>j++\<close> overflows.
\<close>

theorem norms_wide:
  "new_Matrix 1 2147483649 empty_store = Inr (Some 0, wide_store) \<and>
   Matrix_put (Some 0) 0 2147483648 1 wide_store = Inr (0, wide_put_store) \<and>
   Matrix_l1 (Some 0) wide_put_store = Inl SignedOverflow \<and>
   Matrix_l2 (Some 0) wide_put_store = Inl SignedOverflow"
proof -
  have "Matrix_l1 (Some 0) wide_put_store = Inl SignedOverflow"
    by (rule Matrix_l1_overflow [OF wide_put_lookup wide_put_shaped wide_put_vals(1)])
      (simp_all add: wide_put_vals INT_MAX_def)
  moreover have "Matrix_l2 (Some 0) wide_put_store = Inl SignedOverflow"
    by (rule Matrix_l2_overflow [OF wide_put_lookup wide_put_shaped wide_put_vals(1)])
      (simp_all add: wide_put_vals INT_MAX_def)
  ultimately show ?thesis
    using new_Matrix_wide Matrix_put_wide by simp
qed

subsection \<open>The norms without storage\<close>

text \<open>
  Claim C7 as stated: on a matrix with no backing storage \<open>Matrix_l2\<close> returns 0.0.
  It does not on a struct with \<open>vals == NULL\<close> and two rows and two columns, where the
  first round reads through the null pointer, nor on the result of
  \<open>new_Matrix(2147483649, 0)\<close>, where the row counter overflows.
\<close>

theorem Matrix_l2_without_storage_faults:
  "lookup hollow_store 0 = Some \<lparr>nrows = 2, ncols = 2, vals = None\<rparr> \<and>
   Matrix_l2 (Some 0) hollow_store = Inl NullDereference \<and>
   new_Matrix 2147483649 0 empty_store = Inr (Some 0, tall_store) \<and>
   lookup tall_store 0 = Some \<lparr>nrows = 2147483649, ncols = 0, vals = None\<rparr> \<and>
   Matrix_l2 (Some 0) tall_store = Inl SignedOverflow"
proof -
  have h: "lookup hollow_store 0 = Some \<lparr>nrows = 2, ncols = 2, vals = None\<rparr>"
    by (simp add: lookup_def hollow_store_def)
  have t: "lookup tall_store 0 = Some \<lparr>nrows = 2147483649, ncols = 0, vals = None\<rparr>"
    by (simp add: tall_store_def lookup_alloc empty_store_def)
  have "Matrix_l2 (Some 0) hollow_store = Inl NullDereference"
    by (rule Matrix_l2_null_storage [OF h]) simp_all
  moreover have "Matrix_l2 (Some 0) tall_store = Inl SignedOverflow"
    by (rule Matrix_l2_rows_overflow [OF t]) (simp_all add: INT_MAX_def)
  moreover have "new_Matrix 2147483649 0 empty_store = Inr (Some 0, tall_store)"
    using new_Matrix_empty [of 2147483649 0 empty_store]
    by (simp add: tall_store_def empty_store_def)
  ultimately show ?thesis
    using h t by simp
qed

text \<open>
  Claim C7, amended. On a null handle and on a matrix with no backing storage,
  \<open>Matrix_l1\<close> sets \<open>errno\<close> to \<open>EINVAL\<close> and returns 0.0. \<open>Matrix_l2\<close> returns 0.0 and
  leaves the store, \<open>errno\<close> included, as it was on a null handle, and on a matrix with
  no backing storage that has no rows, or no columns and at most \<open>INT_MAX\<close> rows (every
  \<open>0 \<times> 0\<close> construction is one): its only guard is the null check.
\<close>

theorem norms_without_storage:
  "Matrix_l1 None s = Inr (0, s\<lparr>errno := EINVAL\<rparr>) \<and>
   Matrix_l2 None s = Inr (0, s) \<and>
   (lookup s a = Some m \<longrightarrow> vals m = None \<longrightarrow>
      Matrix_l1 (Some a) s = Inr (0, s\<lparr>errno := EINVAL\<rparr>)) \<and>
   (lookup s a = Some m \<longrightarrow> vals m = None \<longrightarrow>
    nrows m = 0 \<or> (ncols m = 0 \<and> nrows m \<le> INT_MAX) \<longrightarrow>
      Matrix_l2 (Some a) s = Inr (0, s))"
  by (simp add: Matrix_l1_invalid Matrix_l2_null Matrix_l2_no_entries)

text \<open>In the example store, on the \<open>0 \<times> 0\<close> matrix without storage.\<close>

theorem norms_without_storage_witness:
  "Matrix_l1 (Some 3) example_store = Inr (0, example_store\<lparr>errno := EINVAL\<rparr>) \<and>
   Matrix_l2 (Some 3) example_store = Inr (0, example_store)"
  using norms_without_storage [of example_store 3 "\<lparr>nrows = 0, ncols = 0, vals = None\<rparr>"]
  by (simp add: example_lookup)

end
